theory Spec2Isabelle
  imports Complex_Main
begin

section \<open>Universe Sim: the per-frame update pipeline of src/main.js\<close>

text \<open>
  The embedding follows \<^verbatim>\<open>src/main.js\<close>. The module-level variables of the script
  (clock, camera, trails, selection) are the fields of one state record, every event
  listener is a function on that record, and \<^verbatim>\<open>tick\<close> is the animation-frame callback.

  JavaScript numbers are modelled as mathematical reals: the rounding of IEEE doubles, and of
  the \<^verbatim>\<open>Float32Array\<close> that backs a trail, is not represented. Counters are naturals.
  Three.js and Astronomy Engine are outside the repository; the few operations of theirs the
  script calls (\<^verbatim>\<open>Vector3\<close> arithmetic, \<^verbatim>\<open>lookAt\<close>, \<^verbatim>\<open>setDrawRange\<close>,
  \<^verbatim>\<open>MakeTime\<close> on a number) are written out as the script relies on them, and
  \<^verbatim>\<open>HelioVector\<close> is a parameter that may fail.
\<close>

subsection \<open>Vectors\<close>

datatype Vector3 = Vector3 (vx: real) (vy: real) (vz: real)

definition multiplyScalar :: "Vector3 \<Rightarrow> real \<Rightarrow> Vector3" where
  "multiplyScalar v k = Vector3 (vx v * k) (vy v * k) (vz v * k)"

definition addScaledVector :: "Vector3 \<Rightarrow> Vector3 \<Rightarrow> real \<Rightarrow> Vector3" where
  "addScaledVector t v k = Vector3 (vx t + vx v * k) (vy t + vy v * k) (vz t + vz v * k)"

definition sub :: "Vector3 \<Rightarrow> Vector3 \<Rightarrow> Vector3" where
  "sub a b = Vector3 (vx a - vx b) (vy a - vy b) (vz a - vz b)"

definition cross :: "Vector3 \<Rightarrow> Vector3 \<Rightarrow> Vector3" where
  "cross a b = Vector3 (vy a * vz b - vz a * vy b)
                       (vz a * vx b - vx a * vz b)
                       (vx a * vy b - vy a * vx b)"

definition vlength :: "Vector3 \<Rightarrow> real" where
  "vlength v = sqrt (vx v * vx v + vy v * vy v + vz v * vz v)"

text \<open>\<^verbatim>\<open>Vector3.normalize\<close> divides by \<^verbatim>\<open>length() || 1\<close>.\<close>

definition normalize :: "Vector3 \<Rightarrow> Vector3" where
  "normalize v = (let l = (if vlength v = 0 then 1 else vlength v)
                  in Vector3 (vx v / l) (vy v / l) (vz v / l))"

subsection \<open>Bodies and the ephemeris\<close>

datatype Body = Mercury | Venus | Earth | Mars | Jupiter | Saturn | Uranus | Neptune

record planet =
  key :: string
  body :: Body
  color :: nat
  radius :: real
  desc :: string

definition AU_TO_UNITS :: real where
  "AU_TO_UNITS = 220"

definition bodies :: "planet list" where
  "bodies =
    [\<lparr>key = ''Mercury'', body = Mercury, color = 0xbab3a6, radius = 3.2, desc = ''Small, fast, cratered.''\<rparr>,
     \<lparr>key = ''Venus'', body = Venus, color = 0xe6c48c, radius = 6.2, desc = ''Thick atmosphere, hottest surface.''\<rparr>,
     \<lparr>key = ''Earth'', body = Earth, color = 0x4fa3ff, radius = 6.4, desc = ''Home. 1 AU baseline.''\<rparr>,
     \<lparr>key = ''Mars'', body = Mars, color = 0xe36a3b, radius = 4.2, desc = ''Red planet, thin atmosphere.''\<rparr>,
     \<lparr>key = ''Jupiter'', body = Jupiter, color = 0xd9b38c, radius = 14.0, desc = ''Gas giant, many moons.''\<rparr>,
     \<lparr>key = ''Saturn'', body = Saturn, color = 0xf2d39c, radius = 12.0, desc = ''Rings, low density.''\<rparr>,
     \<lparr>key = ''Uranus'', body = Uranus, color = 0x8fe7ff, radius = 9.5, desc = ''Ice giant, extreme tilt.''\<rparr>,
     \<lparr>key = ''Neptune'', body = Neptune, color = 0x3a6bff, radius = 9.2, desc = ''Ice giant, strong winds.''\<rparr>]"

text \<open>
  An Astronomy Engine time is identified with its \<^verbatim>\<open>ut\<close> field (days since J2000);
  \<^verbatim>\<open>MakeTime\<close> applied to a number builds the time with that \<^verbatim>\<open>ut\<close>.
\<close>

datatype AstroTime = AstroTime (ut: real)

definition MakeTime :: "real \<Rightarrow> AstroTime" where
  "MakeTime u = AstroTime u"

datatype error = EphemerisFailure | TypeError

text \<open>
  \<^verbatim>\<open>HelioVector(body, time)\<close>: the external ephemeris. It returns a vector in AU or throws.
\<close>

type_synonym ephemeris = "Body \<Rightarrow> AstroTime \<Rightarrow> error + Vector3"

definition computeHelioPos :: "ephemeris \<Rightarrow> Body \<Rightarrow> AstroTime \<Rightarrow> error + Vector3" where
  "computeHelioPos HelioVector b time =
     (case HelioVector b time of
        Inl e \<Rightarrow> Inl e
      | Inr v \<Rightarrow> Inr (Vector3 (vx v) (vz v) (vy v)))"

subsection \<open>Trails\<close>

text \<open>
  One entry of the \<^verbatim>\<open>trails\<close> map: the line's position attribute (three numbers per
  vertex), the draw range and visibility of the line, and the ring-buffer bookkeeping.
\<close>

record trail =
  arr :: "real list"
  drawStart :: nat
  drawCount :: nat
  visible :: bool
  maxPts :: nat
  count :: nat

definition new_trail :: "nat \<Rightarrow> trail" where
  "new_trail n = \<lparr>arr = replicate (n * 3) 0, drawStart = 0, drawCount = 0,
                  visible = True, maxPts = n, count = 0\<rparr>"

text \<open>
  The body of \<^verbatim>\<open>if (showTrails) { ... }\<close> in \<^verbatim>\<open>tick\<close>. A write past the end of a typed
  array is ignored, as is a list update past the end of a list. (With \<^verbatim>\<open>maxPts = 0\<close> the
  index would be NaN in JavaScript; the script always uses 220.)
\<close>

definition trail_push :: "Vector3 \<Rightarrow> trail \<Rightarrow> trail" where
  "trail_push pos tr =
     (let idx = count tr mod maxPts tr;
          a = (arr tr)[idx * 3 + 0 := vx pos, idx * 3 + 1 := vy pos, idx * 3 + 2 := vz pos];
          c = count tr + 1
      in tr\<lparr>arr := a, count := c, drawStart := 0, drawCount := min (maxPts tr) c\<rparr>)"

text \<open>The body of the loop of \<^verbatim>\<open>resetTrails\<close>.\<close>

definition trail_reset :: "trail \<Rightarrow> trail" where
  "trail_reset tr = tr\<lparr>count := 0, drawStart := 0, drawCount := 0\<rparr>"

text \<open>
  What a \<^verbatim>\<open>THREE.Line\<close> draws: the vertices of the draw range, cut at the number of
  vertices the attribute holds, in index order, vertex \<open>i\<close> being the three numbers at
  \<open>3 i\<close>, \<open>3 i + 1\<close>, \<open>3 i + 2\<close>.
\<close>

definition vertex :: "real list \<Rightarrow> nat \<Rightarrow> Vector3" where
  "vertex a i = Vector3 (a ! (i * 3 + 0)) (a ! (i * 3 + 1)) (a ! (i * 3 + 2))"

definition polyline :: "trail \<Rightarrow> Vector3 list" where
  "polyline tr =
     map (vertex (arr tr))
       [drawStart tr ..< min (drawStart tr + drawCount tr) (length (arr tr) div 3)]"

subsection \<open>The state of the script\<close>

record info_view =
  bodyLabel :: string
  description :: string
  distAU :: real
  helioAU :: Vector3
  date :: AstroTime

record state =
  isDragging :: bool
  isRightDragging :: bool
  lastX :: real
  lastY :: real
  yaw :: real
  pitch :: real
  distance :: real
  target :: Vector3
  camera_position :: Vector3
  camera_lookAt :: Vector3
  planetMeshes :: "Vector3 list"
  trails :: "string \<rightharpoonup> trail"
  selected :: "planet option"
  info :: "info_view option"
  simTime :: AstroTime
  paused :: bool
  timeScale :: real
  showTrails :: bool
  last_ms :: real
  rendered :: nat
  frameRequested :: bool

text \<open>
  \<^verbatim>\<open>updateCamera\<close>. The orientation set by \<^verbatim>\<open>camera.lookAt(target)\<close> is kept as the point
  looked at.
\<close>

definition updateCamera :: "state \<Rightarrow> state" where
  "updateCamera s =
     (let cx = vx (target s) + distance s * cos (pitch s) * cos (yaw s);
          cz = vz (target s) + distance s * cos (pitch s) * sin (yaw s);
          cy = vy (target s) + distance s * sin (pitch s)
      in s\<lparr>camera_position := Vector3 cx cy cz, camera_lookAt := target s\<rparr>)"

text \<open>\<^verbatim>\<open>camera.getWorldDirection\<close>: the unit vector from the camera to the point it looks at.\<close>

definition getWorldDirection :: "state \<Rightarrow> Vector3" where
  "getWorldDirection s = normalize (sub (camera_lookAt s) (camera_position s))"

subsection \<open>Pointer and wheel listeners\<close>

definition pointerdown :: "int \<Rightarrow> real \<Rightarrow> real \<Rightarrow> state \<Rightarrow> state" where
  "pointerdown button clientX clientY s =
     s\<lparr>isDragging := True, isRightDragging := (button = 2), lastX := clientX, lastY := clientY\<rparr>"

definition pointerup :: "state \<Rightarrow> state" where
  "pointerup s = s\<lparr>isDragging := False, isRightDragging := False\<rparr>"

definition pointermove :: "real \<Rightarrow> real \<Rightarrow> state \<Rightarrow> state" where
  "pointermove clientX clientY s =
     (if \<not> isDragging s then s
      else
        let dx = clientX - lastX s;
            dy = clientY - lastY s;
            s1 = s\<lparr>lastX := clientX, lastY := clientY\<rparr>
        in if isRightDragging s1 then
             let panSpeed = distance s1 / 1200;
                 right = normalize (cross (getWorldDirection s1) (Vector3 0 1 0));
                 up = Vector3 0 1 0;
                 t1 = addScaledVector (target s1) right (- dx * panSpeed);
                 t2 = addScaledVector t1 up (dy * panSpeed)
             in s1\<lparr>target := t2\<rparr>
           else
             let yaw1 = yaw s1 - dx * 0.005;
                 pitch1 = pitch s1 - dy * 0.005
             in s1\<lparr>yaw := yaw1, pitch := max (- 1.25) (min 1.25 pitch1)\<rparr>)"

definition wheel :: "real \<Rightarrow> state \<Rightarrow> state" where
  "wheel deltaY s =
     (let delta = sgn deltaY;
          d = distance s * (1 + delta * 0.08)
      in s\<lparr>distance := max 50 (min 12000 d)\<rparr>)"

subsection \<open>Picking and the info panel\<close>

definition setInfo :: "planet \<Rightarrow> Vector3 \<Rightarrow> AstroTime \<Rightarrow> state \<Rightarrow> state" where
  "setInfo p au d s =
     s\<lparr>info := Some \<lparr>bodyLabel = key p, description = desc p, distAU = vlength au,
                     helioAU = au, date = d\<rparr>\<rparr>"

text \<open>The click listener; the first hit of the raycaster, if any, is its argument.\<close>

definition click :: "planet option \<Rightarrow> state \<Rightarrow> state" where
  "click hit s =
     (case hit of
        Some p \<Rightarrow> s\<lparr>selected := Some p\<rparr>
      | None \<Rightarrow> s\<lparr>selected := None, info := None\<rparr>)"

subsection \<open>Time controls\<close>

definition timeScaleInput :: "real \<Rightarrow> state \<Rightarrow> state" where
  "timeScaleInput v s = s\<lparr>timeScale := (if v = 0 then 1 else v)\<rparr>"

definition resetTrails :: "state \<Rightarrow> state" where
  "resetTrails s = s\<lparr>trails := map_option trail_reset \<circ> trails s\<rparr>"

text \<open>
  The \<^verbatim>\<open>Now\<close> button; its argument is the current date as a time. The rebuilt orbit
  preview lines are not part of the state modelled here.
\<close>

definition btnNow :: "AstroTime \<Rightarrow> state \<Rightarrow> state" where
  "btnNow today s = resetTrails (s\<lparr>simTime := today\<rparr>)"

definition btnPause :: "state \<Rightarrow> state" where
  "btnPause s = s\<lparr>paused := \<not> paused s\<rparr>"

definition btnTrails :: "state \<Rightarrow> state" where
  "btnTrails s =
     (let s1 = s\<lparr>showTrails := \<not> showTrails s\<rparr>
      in s1\<lparr>trails := map_option (\<lambda>tr. tr\<lparr>visible := showTrails s1\<rparr>) \<circ> trails s1\<rparr>)"

subsection \<open>The animation loop\<close>

text \<open>
  A JavaScript exception leaves the writes made before it in place, so a run of the frame
  callback yields the state it reached in both cases.
\<close>

datatype 'a outcome = Completed 'a | Threw error 'a

fun reached :: "'a outcome \<Rightarrow> 'a" where
  "reached (Completed a) = a"
| "reached (Threw e a) = a"

fun threw :: "'a outcome \<Rightarrow> bool" where
  "threw (Completed a) = False"
| "threw (Threw e a) = True"

text \<open>
  One iteration of the loop over \<^verbatim>\<open>bodies\<close> in \<^verbatim>\<open>tick\<close>, for body \<open>p\<close> at index \<open>i\<close>;
  \<open>sel\<close> is the local \<^verbatim>\<open>selectedAU\<close>. Reading a field of \<^verbatim>\<open>undefined\<close> (no mesh at
  the index, no trail under the key) throws a TypeError.
\<close>

definition update_body ::
  "ephemeris \<Rightarrow> planet \<Rightarrow> nat \<Rightarrow> Vector3 option \<times> state \<Rightarrow> (Vector3 option \<times> state) outcome"
where
  "update_body HelioVector p i ss =
     (let sel = fst ss; s = snd ss in
      case computeHelioPos HelioVector (body p) (simTime s) of
        Inl e \<Rightarrow> Threw e (sel, s)
      | Inr au \<Rightarrow>
          let pos = multiplyScalar au AU_TO_UNITS in
          if length (planetMeshes s) \<le> i then Threw TypeError (sel, s)
          else
            let s1 = s\<lparr>planetMeshes := (planetMeshes s)[i := pos]\<rparr>;
                sel1 = (case selected s1 of
                          None \<Rightarrow> sel
                        | Some q \<Rightarrow> if key q = key p then Some au else sel)
            in if showTrails s1 then
                 (case trails s1 (key p) of
                    None \<Rightarrow> Threw TypeError (sel, s1)
                  | Some tr \<Rightarrow>
                      Completed (sel1, s1\<lparr>trails := (trails s1)(key p \<mapsto> trail_push pos tr)\<rparr>))
               else Completed (sel1, s1))"

fun body_loop ::
  "ephemeris \<Rightarrow> planet list \<Rightarrow> nat \<Rightarrow> Vector3 option \<times> state \<Rightarrow> (Vector3 option \<times> state) outcome"
where
  "body_loop HelioVector [] i ss = Completed ss"
| "body_loop HelioVector (p # ps) i ss =
     (case update_body HelioVector p i ss of
        Threw e ss1 \<Rightarrow> Threw e ss1
      | Completed ss1 \<Rightarrow> body_loop HelioVector ps (i + 1) ss1)"

text \<open>The first lines of \<^verbatim>\<open>tick\<close>: the frame delta and the clock.\<close>

definition frame_dt :: "real \<Rightarrow> state \<Rightarrow> real" where
  "frame_dt now s = min 0.05 ((now - last_ms s) / 1000)"

definition advance :: "real \<Rightarrow> state \<Rightarrow> state" where
  "advance now s =
     (let dt = frame_dt now s;
          s1 = s\<lparr>last_ms := now\<rparr>
      in if \<not> paused s1
         then s1\<lparr>simTime := MakeTime (ut (simTime s1) + (dt * timeScale s1) / 86400)\<rparr>
         else s1)"

text \<open>
  \<^verbatim>\<open>tick(now)\<close>. The pending frame request is consumed when the callback starts and is
  renewed by the last statement, which an exception never reaches.
\<close>

definition tick :: "ephemeris \<Rightarrow> real \<Rightarrow> state \<Rightarrow> state outcome" where
  "tick HelioVector now s =
     (let s1 = advance now (s\<lparr>frameRequested := False\<rparr>) in
      case body_loop HelioVector bodies 0 (None, s1) of
        Threw e ss \<Rightarrow> Threw e (snd ss)
      | Completed ss \<Rightarrow>
          let selectedAU = fst ss;
              s2 = updateCamera (snd ss);
              s3 = (case selected s2 of
                      None \<Rightarrow> s2
                    | Some p \<Rightarrow>
                        (case selectedAU of
                           None \<Rightarrow> s2
                         | Some au \<Rightarrow> setInfo p au (simTime s2) s2))
          in Completed (s3\<lparr>rendered := rendered s3 + 1, frameRequested := True\<rparr>))"

subsection \<open>Start-up and events\<close>

text \<open>
  The state once the script has run to its last line: \<open>today\<close> is \<^verbatim>\<open>MakeTime(new Date())\<close>
  and \<open>t0\<close> is \<^verbatim>\<open>performance.now()\<close>. Meshes start at the origin, every body has an empty
  trail of 220 points, \<^verbatim>\<open>updateCamera()\<close> has run once and the first frame is requested.
\<close>

definition init_state :: "AstroTime \<Rightarrow> real \<Rightarrow> state" where
  "init_state today t0 =
     updateCamera
       \<lparr>isDragging = False, isRightDragging = False, lastX = 0, lastY = 0,
        yaw = 0.6, pitch = 0.35, distance = 900, target = Vector3 0 0 0,
        camera_position = Vector3 0 350 900, camera_lookAt = Vector3 0 350 899,
        planetMeshes = map (\<lambda>p. Vector3 0 0 0) bodies,
        trails = map_of (map (\<lambda>p. (key p, new_trail 220)) bodies),
        selected = None, info = None,
        simTime = today, paused = False, timeScale = 600, showTrails = True,
        last_ms = t0, rendered = 0, frameRequested = True\<rparr>"

datatype event =
    Frame real
  | PointerDown int real real
  | PointerUp
  | PointerMove real real
  | Wheel real
  | Click "planet option"
  | TimeScaleInput real
  | BtnNow AstroTime
  | BtnPause
  | BtnTrails

text \<open>The frame callback only runs while a frame request is pending.\<close>

fun fire :: "ephemeris \<Rightarrow> state \<Rightarrow> event \<Rightarrow> state" where
  "fire HelioVector s (Frame now) =
     (if frameRequested s then reached (tick HelioVector now s) else s)"
| "fire HelioVector s (PointerDown b cx cy) = pointerdown b cx cy s"
| "fire HelioVector s PointerUp = pointerup s"
| "fire HelioVector s (PointerMove cx cy) = pointermove cx cy s"
| "fire HelioVector s (Wheel dy) = wheel dy s"
| "fire HelioVector s (Click hit) = click hit s"
| "fire HelioVector s (TimeScaleInput v) = timeScaleInput v s"
| "fire HelioVector s (BtnNow today) = btnNow today s"
| "fire HelioVector s BtnPause = btnPause s"
| "fire HelioVector s BtnTrails = btnTrails s"

definition run :: "ephemeris \<Rightarrow> state \<Rightarrow> event list \<Rightarrow> state" where
  "run HelioVector s evs = foldl (fire HelioVector) s evs"

subsection \<open>Notions used to state the properties\<close>

text \<open>The clamp of the specification: \<open>clamp v lo hi\<close> brings \<open>v\<close> into \<open>[lo, hi]\<close>.\<close>

definition clamp :: "real \<Rightarrow> real \<Rightarrow> real \<Rightarrow> real" where
  "clamp v lo hi = max lo (min hi v)"

text \<open>An ephemeris that always answers, as a test stub would.\<close>

definition stub_ephemeris :: ephemeris where
  "stub_ephemeris b t = Inr (Vector3 1 2 3)"

text \<open>An ephemeris that throws for one body and answers for the others.\<close>

definition fails_for :: "Body \<Rightarrow> ephemeris" where
  "fails_for b0 b t = (if b = b0 then Inl EphemerisFailure else Inr (Vector3 1 2 3))"

text \<open>A trail whose array has room for its \<^verbatim>\<open>maxPts\<close> vertices.\<close>

definition wf_trail :: "trail \<Rightarrow> bool" where
  "wf_trail tr = (0 < maxPts tr \<and> length (arr tr) = maxPts tr * 3)"

text \<open>The draw range agrees with the counter.\<close>

definition trail_inv :: "trail \<Rightarrow> bool" where
  "trail_inv tr = (wf_trail tr \<and> drawStart tr = 0 \<and> drawCount tr = min (maxPts tr) (count tr))"

text \<open>The whole storage as vertices, and the storage read cyclically from the write cursor.\<close>

definition ring :: "trail \<Rightarrow> Vector3 list" where
  "ring tr = map (vertex (arr tr)) [0 ..< maxPts tr]"

definition chrono :: "trail \<Rightarrow> Vector3 list" where
  "chrono tr = rotate (count tr mod maxPts tr) (ring tr)"

text \<open>Pushing a sequence of positions, first to last, as successive frames do.\<close>

fun push_all :: "Vector3 list \<Rightarrow> trail \<Rightarrow> trail" where
  "push_all [] tr = tr"
| "push_all (p # ps) tr = push_all ps (trail_push p tr)"

text \<open>The positions \<open>(0,0,0), (1,0,0), \<dots>, (n-1,0,0)\<close>, used as a test sequence.\<close>

definition ramp :: "nat \<Rightarrow> Vector3 list" where
  "ramp n = map (\<lambda>k. Vector3 (real k) 0 0) [0 ..< n]"

text \<open>Two states that differ at most in the mesh positions and the trails.\<close>

definition only_scene :: "state \<Rightarrow> state \<Rightarrow> bool" where
  "only_scene s s' = (s' = s\<lparr>planetMeshes := planetMeshes s', trails := trails s'\<rparr>)"

text \<open>The bounds of the orbit camera.\<close>

definition cam_inv :: "state \<Rightarrow> bool" where
  "cam_inv s = (- 1.25 \<le> pitch s \<and> pitch s \<le> 1.25 \<and> 50 \<le> distance s \<and> distance s \<le> 12000)"

text \<open>Every trail has a consistent draw range; every body has a mesh and a trail.\<close>

definition trails_ok :: "state \<Rightarrow> bool" where
  "trails_ok s = (\<forall>k tr. trails s k = Some tr \<longrightarrow> trail_inv tr)"

definition scene_wf :: "state \<Rightarrow> bool" where
  "scene_wf s = (length (planetMeshes s) = length bodies \<and>
                 (\<forall>p \<in> set bodies. trails s (key p) \<noteq> None) \<and> trails_ok s)"

section \<open>Auxiliary facts\<close>

subsection \<open>The body loop only touches meshes and trails\<close>

lemma only_scene_refl: "only_scene s s"
  by (simp add: only_scene_def)

lemma only_scene_trans: "only_scene s s1 \<Longrightarrow> only_scene s1 s2 \<Longrightarrow> only_scene s s2"
  unfolding only_scene_def
proof -
  assume a: "s1 = s\<lparr>planetMeshes := planetMeshes s1, trails := trails s1\<rparr>"
    and b: "s2 = s1\<lparr>planetMeshes := planetMeshes s2, trails := trails s2\<rparr>"
  have "s2 = (s\<lparr>planetMeshes := planetMeshes s1, trails := trails s1\<rparr>)
               \<lparr>planetMeshes := planetMeshes s2, trails := trails s2\<rparr>"
    using a b by simp
  then show "s2 = s\<lparr>planetMeshes := planetMeshes s2, trails := trails s2\<rparr>"
    by simp
qed

lemma update_body_only_scene: "only_scene (snd ss) (snd (reached (update_body h p i ss)))"
  by (simp add: only_scene_def update_body_def Let_def split: sum.splits option.splits)

lemma body_loop_only_scene: "only_scene (snd ss) (snd (reached (body_loop h ps i ss)))"
proof (induction ps arbitrary: i ss)
  case Nil
  show ?case by (simp add: only_scene_refl)
next
  case (Cons p ps)
  show ?case
  proof (cases "update_body h p i ss")
    case (Completed ss1)
    have "only_scene (snd ss) (snd ss1)"
      using update_body_only_scene [of ss h p i] Completed by simp
    moreover have "only_scene (snd ss1) (snd (reached (body_loop h ps (i + 1) ss1)))"
      by (rule Cons.IH)
    ultimately show ?thesis
      using Completed by (simp add: only_scene_trans)
  next
    case (Threw e ss1)
    then show ?thesis using update_body_only_scene [of ss h p i] by simp
  qed
qed

lemma only_scene_fields:
  assumes "only_scene s s'"
  shows "simTime s' = simTime s" "paused s' = paused s" "timeScale s' = timeScale s"
    "showTrails s' = showTrails s" "last_ms s' = last_ms s" "selected s' = selected s"
    "pitch s' = pitch s" "distance s' = distance s" "yaw s' = yaw s" "target s' = target s"
    "camera_position s' = camera_position s" "camera_lookAt s' = camera_lookAt s"
    "info s' = info s" "rendered s' = rendered s" "frameRequested s' = frameRequested s"
    "isDragging s' = isDragging s" "isRightDragging s' = isRightDragging s"
    "lastX s' = lastX s" "lastY s' = lastY s"
proof -
  have e: "s' = s\<lparr>planetMeshes := planetMeshes s', trails := trails s'\<rparr>"
    using assms by (simp add: only_scene_def)
  show "simTime s' = simTime s" by (subst e) simp
  show "paused s' = paused s" by (subst e) simp
  show "timeScale s' = timeScale s" by (subst e) simp
  show "showTrails s' = showTrails s" by (subst e) simp
  show "last_ms s' = last_ms s" by (subst e) simp
  show "selected s' = selected s" by (subst e) simp
  show "pitch s' = pitch s" by (subst e) simp
  show "distance s' = distance s" by (subst e) simp
  show "yaw s' = yaw s" by (subst e) simp
  show "target s' = target s" by (subst e) simp
  show "camera_position s' = camera_position s" by (subst e) simp
  show "camera_lookAt s' = camera_lookAt s" by (subst e) simp
  show "info s' = info s" by (subst e) simp
  show "rendered s' = rendered s" by (subst e) simp
  show "frameRequested s' = frameRequested s" by (subst e) simp
  show "isDragging s' = isDragging s" by (subst e) simp
  show "isRightDragging s' = isRightDragging s" by (subst e) simp
  show "lastX s' = lastX s" by (subst e) simp
  show "lastY s' = lastY s" by (subst e) simp
qed

lemma tick_simTime: "simTime (reached (tick h now s)) = simTime (advance now (s\<lparr>frameRequested := False\<rparr>))"
proof -
  let ?s1 = "advance now (s\<lparr>frameRequested := False\<rparr>)"
  have os: "only_scene ?s1 (snd (reached (body_loop h bodies 0 (None, ?s1))))"
    using body_loop_only_scene [of "(None, ?s1)" h bodies 0] by simp
  show ?thesis
  proof (cases "body_loop h bodies 0 (None, ?s1)")
    case (Completed ss)
    then show ?thesis using os
      by (simp add: tick_def Let_def only_scene_fields(1) updateCamera_def setInfo_def split: option.splits)
  next
    case (Threw e ss)
    then show ?thesis using os
      by (simp add: tick_def Let_def only_scene_fields(1))
  qed
qed

subsection \<open>The ring buffer\<close>

lemma trail_push_fields:
  "maxPts (trail_push p tr) = maxPts tr" "count (trail_push p tr) = count tr + 1"
  "drawStart (trail_push p tr) = 0" "drawCount (trail_push p tr) = min (maxPts tr) (count tr + 1)"
  "visible (trail_push p tr) = visible tr" "length (arr (trail_push p tr)) = length (arr tr)"
  by (simp_all add: trail_push_def Let_def)

lemma trail_push_vertex:
  assumes "wf_trail tr"
  shows "vertex (arr (trail_push p tr)) i =
           (if i = count tr mod maxPts tr then p else vertex (arr tr) i)"
proof -
  have "count tr mod maxPts tr < maxPts tr"
    using assms by (simp add: wf_trail_def)
  then have "count tr mod maxPts tr * 3 + 2 < length (arr tr)"
    using assms by (simp add: wf_trail_def)
  then show ?thesis
    by (auto simp add: trail_push_def Let_def vertex_def nth_list_update)
qed

lemma wf_trail_push: "wf_trail tr \<Longrightarrow> wf_trail (trail_push p tr)"
  by (simp add: wf_trail_def trail_push_fields)

lemma trail_inv_push: "trail_inv tr \<Longrightarrow> trail_inv (trail_push p tr)"
  by (simp add: trail_inv_def wf_trail_push trail_push_fields)

lemma trail_inv_reset: "trail_inv tr \<Longrightarrow> trail_inv (trail_reset tr)"
  by (simp add: trail_inv_def wf_trail_def trail_reset_def)

lemma trail_inv_new: "0 < n \<Longrightarrow> trail_inv (new_trail n)"
  by (simp add: trail_inv_def wf_trail_def new_trail_def)

lemma length_ring: "length (ring tr) = maxPts tr"
  by (simp add: ring_def)

lemma ring_push:
  assumes "wf_trail tr"
  shows "ring (trail_push p tr) = (ring tr)[count tr mod maxPts tr := p]"
proof (rule nth_equalityI)
  show "length (ring (trail_push p tr)) = length ((ring tr)[count tr mod maxPts tr := p])"
    by (simp add: length_ring trail_push_fields)
next
  fix i assume "i < length (ring (trail_push p tr))"
  then have i: "i < maxPts tr" by (simp add: length_ring trail_push_fields)
  then show "ring (trail_push p tr) ! i = (ring tr)[count tr mod maxPts tr := p] ! i"
    using assms by (simp add: ring_def trail_push_fields trail_push_vertex nth_list_update)
qed

lemma polyline_ring:
  "wf_trail tr \<Longrightarrow> drawStart tr = 0 \<Longrightarrow> drawCount tr \<le> maxPts tr \<Longrightarrow>
   polyline tr = take (drawCount tr) (ring tr)"
  by (simp add: polyline_def ring_def take_map wf_trail_def min_absorb1)

lemma polyline_full:
  "trail_inv tr \<Longrightarrow> maxPts tr \<le> count tr \<Longrightarrow> polyline tr = ring tr"
  by (simp add: trail_inv_def polyline_ring length_ring)

lemma rotate_update_step:
  assumes "length xs = n" "0 < n"
  shows "rotate (Suc c mod n) (xs[c mod n := p]) = tl (rotate (c mod n) xs) @ [p]"
proof (rule nth_equalityI)
  show "length (rotate (Suc c mod n) (xs[c mod n := p])) = length (tl (rotate (c mod n) xs) @ [p])"
    using assms by simp
next
  fix i assume "i < length (rotate (Suc c mod n) (xs[c mod n := p]))"
  then have i: "i < n" using assms by simp
  have l: "rotate (Suc c mod n) (xs[c mod n := p]) ! i = (xs[c mod n := p]) ! ((Suc c mod n + i) mod n)"
    using i assms by (simp add: nth_rotate)
  have m: "(Suc c mod n + i) mod n = (Suc c + i) mod n"
    by (rule mod_add_left_eq)
  show "rotate (Suc c mod n) (xs[c mod n := p]) ! i = (tl (rotate (c mod n) xs) @ [p]) ! i"
  proof (cases "i = n - 1")
    case True
    then have "(Suc c + i) mod n = (c + n) mod n" using assms by simp
    then have "(Suc c + i) mod n = c mod n" by simp
    then show ?thesis using l m True assms by (simp add: nth_append)
  next
    case False
    then have i2: "Suc i < n" using i by simp
    have ne: "(Suc c + i) mod n \<noteq> c mod n"
    proof
      assume "(Suc c + i) mod n = c mod n"
      then have "(c + Suc i) mod n = c mod n" by simp
      then have "n dvd (c + Suc i) - c" by (simp add: mod_eq_dvd_iff_nat)
      then have "n dvd Suc i" by simp
      then show False using i2 by (auto dest: dvd_imp_le)
    qed
    have i3: "i < length (tl (rotate (c mod n) xs))"
      using i2 assms by simp
    have r: "(tl (rotate (c mod n) xs) @ [p]) ! i = rotate (c mod n) xs ! Suc i"
      using i3 by (simp add: nth_append nth_tl del: length_tl)
    have "rotate (c mod n) xs ! Suc i = xs ! ((c mod n + Suc i) mod n)"
      using i2 assms by (simp add: nth_rotate)
    moreover have "(c mod n + Suc i) mod n = (Suc c + i) mod n"
      using mod_add_left_eq [of c n "Suc i"] by simp
    ultimately show ?thesis using l m r ne assms by simp
  qed
qed

lemma chrono_push:
  assumes "wf_trail tr"
  shows "chrono (trail_push p tr) = tl (chrono tr) @ [p]"
  using assms rotate_update_step [of "ring tr" "maxPts tr" "count tr" p]
  by (simp add: chrono_def ring_push trail_push_fields length_ring wf_trail_def)

lemma length_chrono: "length (chrono tr) = maxPts tr"
  by (simp add: chrono_def length_ring)

lemma chrono_push_all:
  "wf_trail tr \<Longrightarrow> chrono (push_all ps tr) = drop (length ps) (chrono tr @ ps)"
proof (induction ps arbitrary: tr)
  case Nil
  then show ?case by simp
next
  case (Cons p ps)
  have "chrono (push_all (p # ps) tr) = drop (length ps) (chrono (trail_push p tr) @ ps)"
    using Cons by (simp add: wf_trail_push)
  also have "\<dots> = drop (length ps) (tl (chrono tr) @ [p] @ ps)"
    using Cons.prems by (simp add: chrono_push)
  also have "\<dots> = drop (Suc (length ps)) (chrono tr @ p # ps)"
  proof -
    have "chrono tr \<noteq> []"
      using Cons.prems length_chrono [of tr] by (auto simp add: wf_trail_def)
    then obtain a xs where "chrono tr = a # xs" by (cases "chrono tr") auto
    then show ?thesis by simp
  qed
  finally show ?case by simp
qed

lemma nth_ramp: "k < n \<Longrightarrow> ramp n ! k = Vector3 (real k) 0 0"
  by (simp add: ramp_def)

lemma length_ramp: "length (ramp n) = n"
  by (simp add: ramp_def)

lemma push_all_fields:
  "maxPts (push_all ps tr) = maxPts tr" "count (push_all ps tr) = count tr + length ps"
  by (induction ps arbitrary: tr) (simp_all add: trail_push_fields)

lemma wf_push_all: "wf_trail tr \<Longrightarrow> wf_trail (push_all ps tr)"
  by (induction ps arbitrary: tr) (simp_all add: wf_trail_push)

lemma trail_inv_push_all: "trail_inv tr \<Longrightarrow> trail_inv (push_all ps tr)"
  by (induction ps arbitrary: tr) (simp_all add: trail_inv_push)

lemma chrono_full:
  assumes "wf_trail tr" "maxPts tr \<le> length ps"
  shows "chrono (push_all ps tr) = drop (length ps - maxPts tr) ps"
  using assms by (simp add: chrono_push_all length_chrono)

lemma polyline_push_all:
  assumes "trail_inv tr" "maxPts tr \<le> length ps"
  shows "polyline (push_all ps tr) = ring (push_all ps tr)"
proof -
  have "trail_inv (push_all ps tr)" using assms by (simp add: trail_inv_push_all)
  moreover have "maxPts (push_all ps tr) \<le> count (push_all ps tr)"
    using assms by (simp add: push_all_fields)
  ultimately show ?thesis by (rule polyline_full)
qed

lemma polyline_push_all_nth:
  assumes "trail_inv tr" "maxPts tr \<le> length ps" "length ps - maxPts tr \<le> k" "k < length ps"
  shows "polyline (push_all ps tr) ! ((count tr + k) mod maxPts tr) = ps ! k"
proof -
  let ?C = "maxPts tr" and ?N = "length ps" and ?t = "push_all ps tr"
  have wf: "wf_trail tr" using assms by (simp add: trail_inv_def)
  then have C: "0 < ?C" by (simp add: wf_trail_def)
  define i where "i = k - (?N - ?C)"
  have i: "i < ?C" "k = ?N - ?C + i" using assms by (auto simp add: i_def)
  have "chrono ?t ! i = ps ! k"
    using assms wf i by (simp add: chrono_full)
  moreover have "chrono ?t ! i = ring ?t ! ((count ?t mod ?C + i) mod ?C)"
    using i by (simp add: chrono_def nth_rotate length_ring push_all_fields)
  moreover have "(count ?t mod ?C + i) mod ?C = (count tr + k) mod ?C"
  proof -
    have "(count ?t mod ?C + i) mod ?C = (count ?t + i) mod ?C"
      by (rule mod_add_left_eq)
    also have "count ?t + i = count tr + k + ?C"
      using i assms by (simp add: push_all_fields)
    finally show ?thesis by simp
  qed
  ultimately show ?thesis using assms by (simp add: polyline_push_all)
qed

subsection \<open>The camera\<close>

lemma tick_camera:
  "pitch (reached (tick h now s)) = pitch s" "distance (reached (tick h now s)) = distance s"
  "yaw (reached (tick h now s)) = yaw s" "target (reached (tick h now s)) = target s"
proof -
  let ?s1 = "advance now (s\<lparr>frameRequested := False\<rparr>)"
  have os: "only_scene ?s1 (snd (reached (body_loop h bodies 0 (None, ?s1))))"
    using body_loop_only_scene [of "(None, ?s1)" h bodies 0] by simp
  have a: "pitch ?s1 = pitch s" "distance ?s1 = distance s" "yaw ?s1 = yaw s" "target ?s1 = target s"
    by (simp_all add: advance_def Let_def)
  note f = only_scene_fields [OF os]
  show "pitch (reached (tick h now s)) = pitch s"
    using f(7) a by (cases "body_loop h bodies 0 (None, ?s1)")
      (simp_all add: tick_def Let_def updateCamera_def setInfo_def split: option.splits)
  show "distance (reached (tick h now s)) = distance s"
    using f(8) a by (cases "body_loop h bodies 0 (None, ?s1)")
      (simp_all add: tick_def Let_def updateCamera_def setInfo_def split: option.splits)
  show "yaw (reached (tick h now s)) = yaw s"
    using f(9) a by (cases "body_loop h bodies 0 (None, ?s1)")
      (simp_all add: tick_def Let_def updateCamera_def setInfo_def split: option.splits)
  show "target (reached (tick h now s)) = target s"
    using f(10) a by (cases "body_loop h bodies 0 (None, ?s1)")
      (simp_all add: tick_def Let_def updateCamera_def setInfo_def split: option.splits)
qed

lemma cam_inv_init: "cam_inv (init_state today t0)"
  by (simp add: cam_inv_def init_state_def updateCamera_def)

lemma cam_inv_pointermove: "cam_inv s \<Longrightarrow> cam_inv (pointermove cx cy s)"
  by (auto simp add: cam_inv_def pointermove_def Let_def max_def min_def)

lemma cam_inv_wheel: "cam_inv s \<Longrightarrow> cam_inv (wheel dy s)"
  by (auto simp add: cam_inv_def wheel_def Let_def max_def min_def)

lemma cam_inv_fire: "cam_inv s \<Longrightarrow> cam_inv (fire h s ev)"
proof (cases ev)
  case (Frame now)
  assume "cam_inv s"
  then show ?thesis using Frame by (simp add: cam_inv_def tick_camera)
next
  case (PointerMove cx cy)
  assume "cam_inv s"
  then show ?thesis using PointerMove by (simp add: cam_inv_pointermove)
next
  case (Wheel dy)
  assume "cam_inv s"
  then show ?thesis using Wheel by (simp add: cam_inv_wheel)
next
  case (Click hit)
  assume "cam_inv s"
  then show ?thesis using Click by (simp add: cam_inv_def click_def split: option.splits)
qed (simp_all add: cam_inv_def pointerdown_def pointerup_def timeScaleInput_def btnNow_def
      resetTrails_def btnPause_def btnTrails_def Let_def)

lemma cam_inv_run: "cam_inv s \<Longrightarrow> cam_inv (run h s evs)"
  unfolding run_def by (induction evs arbitrary: s) (simp_all add: cam_inv_fire)

lemma wheel_distance:
  "distance (wheel dy s) = max 50 (min 12000 (distance s * (1 + sgn dy * 0.08)))"
  by (simp add: wheel_def Let_def)

lemma funpow_wheel_out:
  assumes "0 < dy" "50 \<le> distance s" "distance s \<le> 12000"
  shows "distance ((wheel dy ^^ n) s) = min 12000 (distance s * (27 / 25) ^ n)"
proof (induction n)
  case 0
  show ?case using assms by simp
next
  case (Suc n)
  define x where "x = distance s * (27 / 25) ^ n"
  have q: "(1::real) \<le> (27 / 25) ^ n" by simp
  have "distance s * 1 \<le> distance s * (27 / 25) ^ n"
    using q assms by (intro mult_left_mono) simp_all
  then have x: "50 \<le> x" unfolding x_def using assms by linarith
  have "distance ((wheel dy ^^ Suc n) s) = max 50 (min 12000 (min 12000 x * (27 / 25)))"
    using Suc assms by (simp add: wheel_distance x_def)
  also have "\<dots> = min 12000 (x * (27 / 25))"
    using x by (simp add: max_def min_def)
  finally show ?case by (simp add: x_def mult.assoc)
qed

lemma funpow_wheel_in:
  assumes "dy < 0" "50 \<le> distance s" "distance s \<le> 12000"
  shows "distance ((wheel dy ^^ n) s) = max 50 (distance s * (23 / 25) ^ n)"
proof (induction n)
  case 0
  show ?case using assms by simp
next
  case (Suc n)
  define x where "x = distance s * (23 / 25) ^ n"
  have q: "(23 / 25) ^ n \<le> (1::real)" by (simp add: power_le_one)
  have "distance s * (23 / 25) ^ n \<le> distance s * 1"
    using q assms by (intro mult_left_mono) simp_all
  then have x: "x \<le> 12000" unfolding x_def using assms by linarith
  have x0: "0 \<le> x" using assms by (simp add: x_def)
  have "distance ((wheel dy ^^ Suc n) s) = max 50 (min 12000 (max 50 x * (23 / 25)))"
    using Suc assms by (simp add: wheel_distance x_def)
  also have "\<dots> = max 50 (x * (23 / 25))"
    using x x0 by (simp add: max_def min_def)
  finally show ?case by (simp add: x_def mult.assoc)
qed

lemma pow_out_72: "(240::real) \<le> (27 / 25) ^ 72"
  by (simp add: power_divide)

lemma pow_in_66: "(23 / 25 :: real) ^ 66 \<le> 1 / 240"
  by (simp add: power_divide)

lemma wheel_out_limit:
  assumes "0 < dy" "50 \<le> distance s" "distance s \<le> 12000" "72 \<le> n"
  shows "distance ((wheel dy ^^ n) s) = 12000"
proof -
  have "(27 / 25 :: real) ^ 72 \<le> (27 / 25) ^ n"
    using assms(4) by (intro power_increasing) simp_all
  then have "(240::real) \<le> (27 / 25) ^ n" using pow_out_72 by linarith
  then have "50 * 240 \<le> distance s * (27 / 25) ^ n"
    using assms by (intro mult_mono) simp_all
  then show ?thesis using assms by (simp add: funpow_wheel_out)
qed

lemma wheel_in_limit:
  assumes "dy < 0" "50 \<le> distance s" "distance s \<le> 12000" "66 \<le> n"
  shows "distance ((wheel dy ^^ n) s) = 50"
proof -
  have "(23 / 25 :: real) ^ n \<le> (23 / 25) ^ 66"
    using assms(4) by (intro power_decreasing) simp_all
  then have "(23 / 25 :: real) ^ n \<le> 1 / 240" using pow_in_66 by linarith
  then have "distance s * (23 / 25) ^ n \<le> 12000 * (1 / 240)"
    using assms by (intro mult_mono) simp_all
  then show ?thesis using assms by (simp add: funpow_wheel_in)
qed

subsection \<open>The loop over the bodies\<close>

lemma distinct_keys: "distinct (map key bodies)"
  by (simp add: bodies_def)

lemma length_bodies: "length bodies = 8"
  by (simp add: bodies_def)

lemma update_body_fail:
  "computeHelioPos h (body p) (simTime s) = Inl e \<Longrightarrow> update_body h p i (sel, s) = Threw e (sel, s)"
  by (simp add: update_body_def)

lemma update_body_ok:
  assumes "computeHelioPos h (body p) (simTime s) = Inr au" and "i < length (planetMeshes s)"
    and "showTrails s \<longrightarrow> trails s (key p) = Some tr"
  shows "\<exists>sel'. update_body h p i (sel, s) =
           Completed (sel', s\<lparr>planetMeshes := (planetMeshes s)[i := multiplyScalar au AU_TO_UNITS],
                              trails := (if showTrails s
                                         then (trails s)(key p \<mapsto> trail_push (multiplyScalar au AU_TO_UNITS) tr)
                                         else trails s)\<rparr>)"
  using assms by (auto simp add: update_body_def Let_def)

lemma update_body_trails_other:
  "k \<noteq> key p \<Longrightarrow> trails (snd (reached (update_body h p i ss))) k = trails (snd ss) k"
  by (simp add: update_body_def Let_def split: sum.splits option.splits)

lemma update_body_trails_hidden:
  "\<not> showTrails (snd ss) \<Longrightarrow> trails (snd (reached (update_body h p i ss))) = trails (snd ss)"
  by (simp add: update_body_def Let_def split: sum.splits option.splits)

lemma update_body_meshes_other:
  "j \<noteq> i \<Longrightarrow> planetMeshes (snd (reached (update_body h p i ss))) ! j = planetMeshes (snd ss) ! j"
  by (simp add: update_body_def Let_def split: sum.splits option.splits)

lemma update_body_length_meshes:
  "length (planetMeshes (snd (reached (update_body h p i ss)))) = length (planetMeshes (snd ss))"
  by (simp add: update_body_def Let_def split: sum.splits option.splits)

lemma body_loop_step:
  "reached (body_loop h (p # ps) i ss) =
     (if threw (update_body h p i ss) then reached (update_body h p i ss)
      else reached (body_loop h ps (Suc i) (reached (update_body h p i ss))))"
  by (cases "update_body h p i ss") simp_all

lemma body_loop_trails_other:
  "k \<notin> key ` set ps \<Longrightarrow> trails (snd (reached (body_loop h ps i ss))) k = trails (snd ss) k"
proof (induction ps arbitrary: i ss)
  case Nil
  show ?case by simp
next
  case (Cons p ps)
  then have k: "k \<noteq> key p" "k \<notin> key ` set ps" by auto
  show ?case
    using Cons.IH [OF k(2)] k(1) by (simp add: body_loop_step update_body_trails_other del: body_loop.simps(2))
qed

lemma body_loop_showTrails:
  "showTrails (snd (reached (body_loop h ps i ss))) = showTrails (snd ss)"
  using body_loop_only_scene [of ss h ps i] by (simp add: only_scene_fields)

lemma update_body_showTrails:
  "showTrails (snd (reached (update_body h p i ss))) = showTrails (snd ss)"
  using update_body_only_scene [of ss h p i] by (simp add: only_scene_fields)

lemma body_loop_trails_hidden:
  "\<not> showTrails (snd ss) \<Longrightarrow> trails (snd (reached (body_loop h ps i ss))) = trails (snd ss)"
proof (induction ps arbitrary: i ss)
  case Nil
  show ?case by simp
next
  case (Cons p ps)
  have "\<not> showTrails (snd (reached (update_body h p i ss)))"
    using Cons.prems by (simp add: update_body_showTrails)
  then show ?case
    using Cons.IH Cons.prems by (simp add: body_loop_step update_body_trails_hidden del: body_loop.simps(2))
qed

lemma body_loop_meshes_other:
  "j < i \<or> i + length ps \<le> j \<Longrightarrow>
   planetMeshes (snd (reached (body_loop h ps i ss))) ! j = planetMeshes (snd ss) ! j"
proof (induction ps arbitrary: i ss)
  case Nil
  show ?case by simp
next
  case (Cons p ps)
  then have j: "j \<noteq> i" "j < Suc i \<or> Suc i + length ps \<le> j" by auto
  show ?case
    using Cons.IH [OF j(2)] j(1) by (simp add: body_loop_step update_body_meshes_other del: body_loop.simps(2))
qed

lemma body_loop_length_meshes:
  "length (planetMeshes (snd (reached (body_loop h ps i ss)))) = length (planetMeshes (snd ss))"
  by (induction ps arbitrary: i ss) (simp_all add: body_loop_step update_body_length_meshes del: body_loop.simps(2))

text \<open>A run of the loop over bodies the ephemeris answers for.\<close>

lemma body_loop_ok:
  assumes "\<forall>p \<in> set ps. computeHelioPos h (body p) (simTime s) = Inr (au p)"
    and "distinct (map key ps)"
    and "i + length ps \<le> length (planetMeshes s)"
    and "showTrails s \<longrightarrow> (\<forall>p \<in> set ps. trails s (key p) \<noteq> None)"
  shows "\<exists>sel' s'. body_loop h ps i (sel, s) = Completed (sel', s') \<and>
           (\<forall>j < length ps. planetMeshes s' ! (i + j) = multiplyScalar (au (ps ! j)) AU_TO_UNITS) \<and>
           (showTrails s \<longrightarrow> (\<forall>p \<in> set ps. trails s' (key p) =
               map_option (trail_push (multiplyScalar (au p) AU_TO_UNITS)) (trails s (key p))))"
  using assms
proof (induction ps arbitrary: i sel s)
  case Nil
  show ?case by simp
next
  case (Cons p ps)
  let ?pos = "multiplyScalar (au p) AU_TO_UNITS"
  have i: "i < length (planetMeshes s)" using Cons.prems(3) by simp
  have e: "computeHelioPos h (body p) (simTime s) = Inr (au p)" using Cons.prems(1) by simp
  obtain tr where tr: "showTrails s \<longrightarrow> trails s (key p) = Some tr"
    using Cons.prems(4) by (cases "showTrails s") auto
  define s1 where "s1 = s\<lparr>planetMeshes := (planetMeshes s)[i := ?pos],
      trails := (if showTrails s then (trails s)(key p \<mapsto> trail_push ?pos tr) else trails s)\<rparr>"
  obtain sel1 where u: "update_body h p i (sel, s) = Completed (sel1, s1)"
    using update_body_ok [OF e i tr, of sel] unfolding s1_def by blast
  have f: "simTime s1 = simTime s" "showTrails s1 = showTrails s"
    "length (planetMeshes s1) = length (planetMeshes s)"
    by (simp_all add: s1_def)
  have a1: "\<forall>q \<in> set ps. computeHelioPos h (body q) (simTime s1) = Inr (au q)"
    using Cons.prems(1) f by simp
  have a2: "distinct (map key ps)" using Cons.prems(2) by simp
  have a3: "Suc i + length ps \<le> length (planetMeshes s1)" using Cons.prems(3) f by simp
  have a4: "showTrails s1 \<longrightarrow> (\<forall>q \<in> set ps. trails s1 (key q) \<noteq> None)"
    using Cons.prems(4) by (simp add: s1_def)
  obtain sel' s' where r: "body_loop h ps (Suc i) (sel1, s1) = Completed (sel', s')"
    and m: "\<forall>j < length ps. planetMeshes s' ! (Suc i + j) = multiplyScalar (au (ps ! j)) AU_TO_UNITS"
    and t: "showTrails s1 \<longrightarrow> (\<forall>q \<in> set ps. trails s' (key q) =
               map_option (trail_push (multiplyScalar (au q) AU_TO_UNITS)) (trails s1 (key q)))"
    using Cons.IH [OF a1 a2 a3 a4, of sel1] by blast
  have whole: "body_loop h (p # ps) i (sel, s) = Completed (sel', s')"
    using u r by simp
  have s': "s' = snd (reached (body_loop h ps (Suc i) (sel1, s1)))" using r by simp
  have mi: "planetMeshes s' ! i = ?pos"
  proof -
    have "planetMeshes s' ! i = planetMeshes s1 ! i"
      unfolding s' using body_loop_meshes_other [of i "Suc i" ps h "(sel1, s1)"] by simp
    then show ?thesis using i by (simp add: s1_def)
  qed
  have meshes: "\<forall>j < length (p # ps). planetMeshes s' ! (i + j) = multiplyScalar (au ((p # ps) ! j)) AU_TO_UNITS"
  proof (intro allI impI)
    fix j assume "j < length (p # ps)"
    then show "planetMeshes s' ! (i + j) = multiplyScalar (au ((p # ps) ! j)) AU_TO_UNITS"
      using mi m by (cases j) simp_all
  qed
  have trs: "showTrails s \<longrightarrow> (\<forall>q \<in> set (p # ps). trails s' (key q) =
               map_option (trail_push (multiplyScalar (au q) AU_TO_UNITS)) (trails s (key q)))"
  proof (intro impI ballI)
    fix q assume sh: "showTrails s" and q: "q \<in> set (p # ps)"
    show "trails s' (key q) = map_option (trail_push (multiplyScalar (au q) AU_TO_UNITS)) (trails s (key q))"
    proof (cases "q = p")
      case True
      have "key p \<notin> key ` set ps" using Cons.prems(2) by simp
      then have "trails s' (key p) = trails s1 (key p)"
        unfolding s' using body_loop_trails_other [of "key p" ps h "Suc i" "(sel1, s1)"] by simp
      then show ?thesis using True sh tr by (simp add: s1_def)
    next
      case False
      then have qs: "q \<in> set ps" using q by simp
      have "key p \<notin> key ` set ps" using Cons.prems(2) by simp
      then have "key q \<noteq> key p" using qs by (metis imageI)
      then have "trails s1 (key q) = trails s (key q)" by (simp add: s1_def)
      then show ?thesis using t qs sh f by simp
    qed
  qed
  show ?case using whole meshes trs by blast
qed

lemma body_loop_append:
  "body_loop h (xs @ ys) i ss =
     (case body_loop h xs i ss of
        Threw e r \<Rightarrow> Threw e r
      | Completed r \<Rightarrow> body_loop h ys (i + length xs) r)"
  by (induction xs arbitrary: i ss) (simp_all split: outcome.splits)

subsection \<open>Frames\<close>

lemma advance_fields:
  "trails (advance now s) = trails s" "planetMeshes (advance now s) = planetMeshes s"
  "showTrails (advance now s) = showTrails s" "paused (advance now s) = paused s"
  "camera_position (advance now s) = camera_position s" "camera_lookAt (advance now s) = camera_lookAt s"
  "info (advance now s) = info s" "rendered (advance now s) = rendered s"
  "frameRequested (advance now s) = frameRequested s" "selected (advance now s) = selected s"
  by (simp_all add: advance_def Let_def)

lemma advance_simTime_frame:
  "simTime (advance now (s\<lparr>frameRequested := b\<rparr>)) = simTime (advance now s)"
  by (simp add: advance_def frame_dt_def Let_def)

lemma advance_paused: "paused s \<Longrightarrow> simTime (advance now s) = simTime s"
  by (simp add: advance_def Let_def)

text \<open>What a frame leaves of the loop's result.\<close>

lemma tick_scene:
  "trails (reached (tick h now s)) =
     trails (snd (reached (body_loop h bodies 0 (None, advance now (s\<lparr>frameRequested := False\<rparr>)))))"
  "planetMeshes (reached (tick h now s)) =
     planetMeshes (snd (reached (body_loop h bodies 0 (None, advance now (s\<lparr>frameRequested := False\<rparr>)))))"
  "threw (tick h now s) = threw (body_loop h bodies 0 (None, advance now (s\<lparr>frameRequested := False\<rparr>)))"
  by (cases "body_loop h bodies 0 (None, advance now (s\<lparr>frameRequested := False\<rparr>))";
      simp add: tick_def Let_def updateCamera_def setInfo_def split: option.splits)+

lemma tick_flags:
  "paused (reached (tick h now s)) = paused s" "showTrails (reached (tick h now s)) = showTrails s"
proof -
  let ?s1 = "advance now (s\<lparr>frameRequested := False\<rparr>)"
  have os: "only_scene ?s1 (snd (reached (body_loop h bodies 0 (None, ?s1))))"
    using body_loop_only_scene [of "(None, ?s1)" h bodies 0] by simp
  note f = only_scene_fields [OF os]
  show "paused (reached (tick h now s)) = paused s"
    using f(2) by (cases "body_loop h bodies 0 (None, ?s1)")
      (simp_all add: tick_def Let_def updateCamera_def setInfo_def advance_fields split: option.splits)
  show "showTrails (reached (tick h now s)) = showTrails s"
    using f(4) by (cases "body_loop h bodies 0 (None, ?s1)")
      (simp_all add: tick_def Let_def updateCamera_def setInfo_def advance_fields split: option.splits)
qed

lemma tick_completed:
  "\<not> threw (tick h now s) \<Longrightarrow>
     frameRequested (reached (tick h now s)) \<and> rendered (reached (tick h now s)) = rendered s + 1"
proof -
  let ?s1 = "advance now (s\<lparr>frameRequested := False\<rparr>)"
  assume n: "\<not> threw (tick h now s)"
  have os: "only_scene ?s1 (snd (reached (body_loop h bodies 0 (None, ?s1))))"
    using body_loop_only_scene [of "(None, ?s1)" h bodies 0] by simp
  note f = only_scene_fields [OF os]
  show ?thesis
    using n f(14) by (cases "body_loop h bodies 0 (None, ?s1)")
      (simp_all add: tick_def Let_def updateCamera_def setInfo_def advance_fields split: option.splits)
qed

lemma tick_threw:
  "threw (tick h now s) \<Longrightarrow>
     \<not> frameRequested (reached (tick h now s)) \<and> rendered (reached (tick h now s)) = rendered s \<and>
     camera_position (reached (tick h now s)) = camera_position s \<and>
     camera_lookAt (reached (tick h now s)) = camera_lookAt s \<and>
     info (reached (tick h now s)) = info s"
proof -
  let ?s1 = "advance now (s\<lparr>frameRequested := False\<rparr>)"
  assume n: "threw (tick h now s)"
  have os: "only_scene ?s1 (snd (reached (body_loop h bodies 0 (None, ?s1))))"
    using body_loop_only_scene [of "(None, ?s1)" h bodies 0] by simp
  note f = only_scene_fields [OF os]
  show ?thesis
    using n f(11) f(12) f(13) f(14) f(15) by (cases "body_loop h bodies 0 (None, ?s1)")
      (simp_all add: tick_def Let_def updateCamera_def setInfo_def advance_fields split: option.splits)
qed

lemma tick_trails_hidden: "\<not> showTrails s \<Longrightarrow> trails (reached (tick h now s)) = trails s"
  by (simp add: tick_scene body_loop_trails_hidden advance_fields)

text \<open>Invariants of the trails.\<close>

lemma update_body_trails_ok:
  "trails_ok (snd ss) \<Longrightarrow> trails_ok (snd (reached (update_body h p i ss)))"
  by (auto simp add: trails_ok_def update_body_def Let_def trail_inv_push split: sum.splits option.splits)

lemma body_loop_trails_ok:
  "trails_ok (snd ss) \<Longrightarrow> trails_ok (snd (reached (body_loop h ps i ss)))"
  by (induction ps arbitrary: i ss)
     (simp_all add: body_loop_step update_body_trails_ok del: body_loop.simps(2))

lemma update_body_dom:
  "k \<in> dom (trails (snd ss)) \<Longrightarrow> k \<in> dom (trails (snd (reached (update_body h p i ss))))"
  by (auto simp add: update_body_def Let_def split: sum.splits option.splits)

lemma body_loop_dom:
  "k \<in> dom (trails (snd ss)) \<Longrightarrow> k \<in> dom (trails (snd (reached (body_loop h ps i ss))))"
proof (induction ps arbitrary: i ss)
  case Nil
  then show ?case by simp
next
  case (Cons p ps)
  have "k \<in> dom (trails (snd (reached (update_body h p i ss))))"
    using Cons.prems by (rule update_body_dom)
  then show ?case
    using Cons.IH by (simp add: body_loop_step del: body_loop.simps(2))
qed

lemma trails_ok_tick: "trails_ok s \<Longrightarrow> trails_ok (reached (tick h now s))"
proof -
  assume a: "trails_ok s"
  let ?s1 = "advance now (s\<lparr>frameRequested := False\<rparr>)"
  have "trails_ok ?s1" using a by (simp add: trails_ok_def advance_fields)
  then have "trails_ok (snd (reached (body_loop h bodies 0 (None, ?s1))))"
    using body_loop_trails_ok [of "(None, ?s1)" h bodies 0] by simp
  then show ?thesis by (simp add: trails_ok_def tick_scene)
qed

lemma scene_wf_tick: "scene_wf s \<Longrightarrow> scene_wf (reached (tick h now s))"
proof -
  assume a: "scene_wf s"
  let ?s1 = "advance now (s\<lparr>frameRequested := False\<rparr>)"
  let ?r = "snd (reached (body_loop h bodies 0 (None, ?s1)))"
  have "length (planetMeshes ?r) = length bodies"
    using a body_loop_length_meshes [of h bodies 0 "(None, ?s1)"] by (simp add: scene_wf_def advance_fields)
  moreover have "\<forall>p \<in> set bodies. trails ?r (key p) \<noteq> None"
  proof
    fix p assume "p \<in> set bodies"
    then have "key p \<in> dom (trails (snd (None, ?s1)))"
      using a by (auto simp add: scene_wf_def advance_fields)
    then have "key p \<in> dom (trails ?r)" by (rule body_loop_dom)
    then show "trails ?r (key p) \<noteq> None" by auto
  qed
  moreover have "trails_ok (reached (tick h now s))"
    using a by (simp add: scene_wf_def trails_ok_tick)
  ultimately show ?thesis by (simp add: scene_wf_def tick_scene)
qed

lemma trail_inv_visible: "trail_inv (tr\<lparr>visible := b\<rparr>) = trail_inv tr"
  by (simp add: trail_inv_def wf_trail_def)

lemma scene_wf_fire: "scene_wf s \<Longrightarrow> scene_wf (fire h s ev)"
proof (cases ev)
  case (Frame now)
  assume "scene_wf s"
  then show ?thesis using Frame by (simp add: scene_wf_tick)
next
  case (BtnNow today)
  assume "scene_wf s"
  then show ?thesis using BtnNow
    by (auto simp add: scene_wf_def trails_ok_def btnNow_def resetTrails_def trail_inv_reset)
next
  case BtnTrails
  assume "scene_wf s"
  then show ?thesis using BtnTrails
    by (auto simp add: scene_wf_def trails_ok_def btnTrails_def Let_def trail_inv_visible)
next
  case (Click hit)
  assume "scene_wf s"
  then show ?thesis using Click
    by (simp add: scene_wf_def trails_ok_def click_def split: option.splits)
next
  case (PointerMove cx cy)
  assume "scene_wf s"
  then show ?thesis using PointerMove
    by (simp add: scene_wf_def trails_ok_def pointermove_def Let_def)
qed (simp_all add: scene_wf_def trails_ok_def pointerdown_def pointerup_def wheel_def
      timeScaleInput_def btnPause_def Let_def)

lemma scene_wf_run: "scene_wf s \<Longrightarrow> scene_wf (run h s evs)"
  unfolding run_def by (induction evs arbitrary: s) (simp_all add: scene_wf_fire)

lemma init_trails: "trails (init_state today t0) = map_of (map (\<lambda>p. (key p, new_trail 220)) bodies)"
  by (simp add: init_state_def updateCamera_def)

lemma scene_wf_init: "scene_wf (init_state today t0)"
proof -
  have "length (planetMeshes (init_state today t0)) = length bodies"
    by (simp add: init_state_def updateCamera_def)
  moreover have "\<forall>p \<in> set bodies. trails (init_state today t0) (key p) \<noteq> None"
    by (auto simp add: init_trails map_of_eq_None_iff image_image)
  moreover have "trails_ok (init_state today t0)"
    unfolding trails_ok_def init_trails
  proof (intro allI impI)
    fix k tr assume "map_of (map (\<lambda>p. (key p, new_trail 220)) bodies) k = Some tr"
    then have "(k, tr) \<in> set (map (\<lambda>p. (key p, new_trail 220)) bodies)" by (rule map_of_SomeD)
    then have "tr = new_trail 220" by auto
    then show "trail_inv tr" by (simp add: trail_inv_new)
  qed
  ultimately show ?thesis by (simp add: scene_wf_def)
qed

text \<open>A frame in which the ephemeris answers for every body.\<close>

lemma tick_ok:
  assumes "scene_wf s"
    and "\<forall>p \<in> set bodies. computeHelioPos h (body p) (simTime (advance now s)) = Inr (au p)"
  shows "\<not> threw (tick h now s) \<and>
         (\<forall>j < length bodies. planetMeshes (reached (tick h now s)) ! j =
              multiplyScalar (au (bodies ! j)) AU_TO_UNITS) \<and>
         (showTrails s \<longrightarrow> (\<forall>p \<in> set bodies. trails (reached (tick h now s)) (key p) =
              map_option (trail_push (multiplyScalar (au p) AU_TO_UNITS)) (trails s (key p))))"
proof -
  let ?s1 = "advance now (s\<lparr>frameRequested := False\<rparr>)"
  have a1: "\<forall>p \<in> set bodies. computeHelioPos h (body p) (simTime ?s1) = Inr (au p)"
    using assms(2) by (simp add: advance_simTime_frame)
  have a3: "0 + length bodies \<le> length (planetMeshes ?s1)"
    using assms(1) by (simp add: scene_wf_def advance_fields)
  have a4: "showTrails ?s1 \<longrightarrow> (\<forall>p \<in> set bodies. trails ?s1 (key p) \<noteq> None)"
    using assms(1) by (simp add: scene_wf_def advance_fields)
  obtain sel' s' where r: "body_loop h bodies 0 (None, ?s1) = Completed (sel', s')"
    and m: "\<forall>j < length bodies. planetMeshes s' ! (0 + j) = multiplyScalar (au (bodies ! j)) AU_TO_UNITS"
    and t: "showTrails ?s1 \<longrightarrow> (\<forall>p \<in> set bodies. trails s' (key p) =
               map_option (trail_push (multiplyScalar (au p) AU_TO_UNITS)) (trails ?s1 (key p)))"
    using body_loop_ok [OF a1 distinct_keys a3 a4, of None] by blast
  show ?thesis
    using r m t by (simp add: tick_scene advance_fields)
qed

lemma polyline_reset_push:
  assumes "wf_trail tr"
  shows "polyline (trail_push p (trail_reset tr)) = [p]"
proof -
  have w: "wf_trail (trail_reset tr)" using assms by (simp add: wf_trail_def trail_reset_def)
  have c: "count (trail_reset tr) = 0" "maxPts (trail_reset tr) = maxPts tr"
    by (simp_all add: trail_reset_def)
  have m: "0 < maxPts tr" using assms by (simp add: wf_trail_def)
  have "vertex (arr (trail_push p (trail_reset tr))) 0 = p"
    using trail_push_vertex [OF w, of p 0] c by simp
  moreover have "drawStart (trail_push p (trail_reset tr)) = 0"
    "drawCount (trail_push p (trail_reset tr)) = 1"
    using m by (simp_all add: trail_push_fields c)
  moreover have "length (arr (trail_push p (trail_reset tr))) div 3 = maxPts tr"
    using assms by (simp add: trail_push_fields trail_reset_def wf_trail_def)
  ultimately show ?thesis using m by (simp add: polyline_def)
qed

lemma stub_computeHelioPos: "computeHelioPos stub_ephemeris b t = Inr (Vector3 1 3 2)"
  by (simp add: computeHelioPos_def stub_ephemeris_def)

lemma mercury_in_bodies:
  "\<lparr>key = ''Mercury'', body = Mercury, color = 0xbab3a6, radius = 3.2, desc = ''Small, fast, cratered.''\<rparr> \<in> set bodies"
  by (simp add: bodies_def)

lemma hidden_frames:
  "\<not> showTrails s \<Longrightarrow> trails (run h s (map Frame nows)) = trails s"
proof (induction nows arbitrary: s)
  case Nil
  show ?case by (simp add: run_def)
next
  case (Cons now nows)
  have a: "\<not> showTrails (fire h s (Frame now))" using Cons.prems by (simp add: tick_flags)
  have b: "trails (fire h s (Frame now)) = trails s" using Cons.prems by (simp add: tick_trails_hidden)
  have "run h s (map Frame (now # nows)) = run h (fire h s (Frame now)) (map Frame nows)"
    by (simp add: run_def)
  then show ?case using Cons.IH [OF a] b by simp
qed



lemma run_Cons: "run h s (ev # evs) = run h (fire h s ev) evs"
  by (simp add: run_def)

lemma paused_frames:
  assumes "paused s" and "showTrails s" and "frameRequested s" and "scene_wf s"
    and "\<forall>p \<in> set bodies. computeHelioPos h (body p) (simTime s) = Inr (au p)"
    and "q \<in> set bodies" and "trails s (key q) = Some tr"
  shows "simTime (run h s (map Frame nows)) = simTime s \<and>
         trails (run h s (map Frame nows)) (key q) =
           Some (push_all (replicate (length nows) (multiplyScalar (au q) AU_TO_UNITS)) tr)"
  using assms
proof (induction nows arbitrary: s tr)
  case Nil
  then show ?case by (simp add: run_def)
next
  case (Cons now nows)
  let ?s1 = "reached (tick h now s)"
  let ?pos = "multiplyScalar (au q) AU_TO_UNITS"
  have t: "simTime (advance now s) = simTime s" using Cons.prems(1) by (rule advance_paused)
  have e: "\<forall>p \<in> set bodies. computeHelioPos h (body p) (simTime (advance now s)) = Inr (au p)"
    using Cons.prems(5) t by simp
  note ok = tick_ok [OF Cons.prems(4) e]
  have f: "fire h s (Frame now) = ?s1" using Cons.prems(3) by simp
  have p1: "paused ?s1" "showTrails ?s1" using Cons.prems(1,2) by (simp_all add: tick_flags)
  have p3: "frameRequested ?s1" using ok tick_completed [of h now s] by blast
  have p4: "scene_wf ?s1" using Cons.prems(4) by (rule scene_wf_tick)
  have st: "simTime ?s1 = simTime s" using t by (simp add: tick_simTime advance_simTime_frame)
  have p5: "\<forall>p \<in> set bodies. computeHelioPos h (body p) (simTime ?s1) = Inr (au p)"
    using Cons.prems(5) st by simp
  have "trails ?s1 (key q) = map_option (trail_push ?pos) (trails s (key q))"
    using ok Cons.prems(2,6) by blast
  then have p7: "trails ?s1 (key q) = Some (trail_push ?pos tr)"
    using Cons.prems(7) by simp
  have "simTime (run h ?s1 (map Frame nows)) = simTime ?s1 \<and>
        trails (run h ?s1 (map Frame nows)) (key q) =
           Some (push_all (replicate (length nows) ?pos) (trail_push ?pos tr))"
    using p1 p3 p4 p5 Cons.prems(6) p7 by (rule Cons.IH)
  then show ?case using st f by (simp add: run_Cons del: fire.simps)
qed

lemma rotate_replicate_imp:
  assumes "rotate m xs = replicate n a"
  shows "xs = replicate n a"
proof (rule replicate_eqI)
  have "length (rotate m xs) = n" using assms by simp
  then show "length xs = n" by simp
next
  fix y assume "y \<in> set xs"
  then have "y \<in> set (rotate m xs)" by simp
  then show "y = a" using assms by simp
qed

lemma polyline_all_same:
  assumes "trail_inv tr" and "maxPts tr \<le> n"
  shows "polyline (push_all (replicate n p) tr) = replicate (maxPts tr) p"
proof -
  have wf: "wf_trail tr" using assms by (simp add: trail_inv_def)
  have len: "maxPts tr \<le> length (replicate n p)" using assms by simp
  have "chrono (push_all (replicate n p) tr) = drop (length (replicate n p) - maxPts tr) (replicate n p)"
    using wf len by (rule chrono_full)
  then have "rotate (count (push_all (replicate n p) tr) mod maxPts tr) (ring (push_all (replicate n p) tr))
      = replicate (maxPts tr) p"
    using assms by (simp add: chrono_def push_all_fields)
  then have "ring (push_all (replicate n p) tr) = replicate (maxPts tr) p"
    by (rule rotate_replicate_imp)
  then show ?thesis using polyline_push_all [OF assms(1) len] by simp
qed

lemma body_loop_simTime:
  "simTime (snd (reached (body_loop h ps i ss))) = simTime (snd ss)"
  using body_loop_only_scene [of ss h ps i] by (simp add: only_scene_fields)

lemma tick_threw_value:
  "body_loop h bodies 0 (None, advance now (s\<lparr>frameRequested := False\<rparr>)) = Threw e r \<Longrightarrow>
   tick h now s = Threw e (snd r)"
  by (simp add: tick_def Let_def)

text \<open>A frame in which the ephemeris fails for the body at index \<open>k\<close>, having answered before.\<close>

lemma tick_fails_at:
  assumes "scene_wf s" and "k < length bodies"
    and "\<forall>j < k. computeHelioPos h (body (bodies ! j)) (simTime (advance now s)) = Inr (au (bodies ! j))"
    and "computeHelioPos h (body (bodies ! k)) (simTime (advance now s)) = Inl e"
  shows "tick h now s = Threw e (reached (tick h now s))"
    and "\<forall>j < k. planetMeshes (reached (tick h now s)) ! j = multiplyScalar (au (bodies ! j)) AU_TO_UNITS"
    and "showTrails s \<longrightarrow> (\<forall>j < k. trails (reached (tick h now s)) (key (bodies ! j)) =
           map_option (trail_push (multiplyScalar (au (bodies ! j)) AU_TO_UNITS)) (trails s (key (bodies ! j))))"
    and "\<forall>j. k \<le> j \<longrightarrow> planetMeshes (reached (tick h now s)) ! j = planetMeshes s ! j"
    and "\<forall>j. k \<le> j \<and> j < length bodies \<longrightarrow>
           trails (reached (tick h now s)) (key (bodies ! j)) = trails s (key (bodies ! j))"
proof -
  let ?s1 = "advance now (s\<lparr>frameRequested := False\<rparr>)"
  let ?pre = "take k bodies" and ?post = "drop (Suc k) bodies"
  have split: "bodies = ?pre @ bodies ! k # ?post"
    using assms(2) by (rule id_take_nth_drop)
  have lp: "length ?pre = k" using assms(2) by simp
  have t1: "simTime ?s1 = simTime (advance now s)" by (rule advance_simTime_frame)
  have a1: "\<forall>p \<in> set ?pre. computeHelioPos h (body p) (simTime ?s1) = Inr (au p)"
  proof
    fix p assume "p \<in> set ?pre"
    then obtain j where "j < length ?pre" "?pre ! j = p" by (auto simp add: in_set_conv_nth)
    then have "j < k" "bodies ! j = p" using lp by simp_all
    then show "computeHelioPos h (body p) (simTime ?s1) = Inr (au p)"
      using assms(3) t1 by auto
  qed
  have a2: "distinct (map key ?pre)"
    using distinct_keys by (simp add: take_map [symmetric])
  have a3: "0 + length ?pre \<le> length (planetMeshes ?s1)"
    using assms(1,2) by (simp add: scene_wf_def advance_fields)
  have a4: "showTrails ?s1 \<longrightarrow> (\<forall>p \<in> set ?pre. trails ?s1 (key p) \<noteq> None)"
    using assms(1) by (auto simp add: scene_wf_def advance_fields dest: in_set_takeD)
  obtain sel' s' where r: "body_loop h ?pre 0 (None, ?s1) = Completed (sel', s')"
    and m: "\<forall>j < length ?pre. planetMeshes s' ! (0 + j) = multiplyScalar (au (?pre ! j)) AU_TO_UNITS"
    and t: "showTrails ?s1 \<longrightarrow> (\<forall>p \<in> set ?pre. trails s' (key p) =
               map_option (trail_push (multiplyScalar (au p) AU_TO_UNITS)) (trails ?s1 (key p)))"
    using body_loop_ok [OF a1 a2 a3 a4, of None] by blast
  have s': "s' = snd (reached (body_loop h ?pre 0 (None, ?s1)))" using r by simp
  have "simTime s' = simTime ?s1"
    unfolding s' using body_loop_simTime [of h ?pre 0 "(None, ?s1)"] by simp
  then have "computeHelioPos h (body (bodies ! k)) (simTime s') = Inl e"
    using assms(4) t1 by simp
  then have u: "update_body h (bodies ! k) (0 + length ?pre) (sel', s') = Threw e (sel', s')"
    by (rule update_body_fail)
  have "body_loop h (?pre @ bodies ! k # ?post) 0 (None, ?s1) = Threw e (sel', s')"
    using r u by (simp add: body_loop_append)
  then have bl: "body_loop h bodies 0 (None, ?s1) = Threw e (sel', s')"
    using split by simp
  then have tk: "tick h now s = Threw e s'"
    using tick_threw_value [of h now s e "(sel', s')"] by simp
  then have rs: "reached (tick h now s) = s'" by simp
  show "tick h now s = Threw e (reached (tick h now s))" using tk by simp
  show "\<forall>j < k. planetMeshes (reached (tick h now s)) ! j = multiplyScalar (au (bodies ! j)) AU_TO_UNITS"
    using m lp by (simp add: rs)
  show "showTrails s \<longrightarrow> (\<forall>j < k. trails (reached (tick h now s)) (key (bodies ! j)) =
           map_option (trail_push (multiplyScalar (au (bodies ! j)) AU_TO_UNITS)) (trails s (key (bodies ! j))))"
  proof (intro impI allI)
    fix j assume sh: "showTrails s" and j: "j < k"
    then have "bodies ! j \<in> set ?pre"
      using assms(2) by (auto simp add: in_set_conv_nth intro!: exI [of _ j])
    then show "trails (reached (tick h now s)) (key (bodies ! j)) =
           map_option (trail_push (multiplyScalar (au (bodies ! j)) AU_TO_UNITS)) (trails s (key (bodies ! j)))"
      using t sh by (simp add: rs advance_fields)
  qed
  show "\<forall>j. k \<le> j \<longrightarrow> planetMeshes (reached (tick h now s)) ! j = planetMeshes s ! j"
  proof (intro allI impI)
    fix j assume "k \<le> j"
    then have "j < 0 \<or> 0 + length ?pre \<le> j" using lp by simp
    then have "planetMeshes (snd (reached (body_loop h ?pre 0 (None, ?s1)))) ! j = planetMeshes ?s1 ! j"
      using body_loop_meshes_other [of j 0 ?pre h "(None, ?s1)"] by simp
    then show "planetMeshes (reached (tick h now s)) ! j = planetMeshes s ! j"
      by (simp add: rs s' advance_fields)
  qed
  show "\<forall>j. k \<le> j \<and> j < length bodies \<longrightarrow>
           trails (reached (tick h now s)) (key (bodies ! j)) = trails s (key (bodies ! j))"
  proof (intro allI impI)
    fix j assume j: "k \<le> j \<and> j < length bodies"
    have "key (bodies ! j) \<notin> key ` set ?pre"
    proof
      assume "key (bodies ! j) \<in> key ` set ?pre"
      then obtain p where p: "p \<in> set ?pre" "key p = key (bodies ! j)" by auto
      then obtain i where i: "i < length ?pre" "?pre ! i = p" by (auto simp add: in_set_conv_nth)
      then have ik: "i < k" "bodies ! i = p" using lp by simp_all
      have il: "i < length (map key bodies)" "j < length (map key bodies)"
        using ik j assms(2) by simp_all
      have "map key bodies ! i = map key bodies ! j"
        using ik p j assms(2) by simp
      then have "i = j"
        using nth_eq_iff_index_eq [OF distinct_keys il] by blast
      then show False using ik j by simp
    qed
    then have "trails (snd (reached (body_loop h ?pre 0 (None, ?s1)))) (key (bodies ! j)) =
        trails ?s1 (key (bodies ! j))"
      using body_loop_trails_other [of "key (bodies ! j)" ?pre h 0 "(None, ?s1)"] by simp
    then show "trails (reached (tick h now s)) (key (bodies ! j)) = trails s (key (bodies ! j))"
      by (simp add: rs s' advance_fields)
  qed
qed

lemma fails_for_Venus:
  "\<forall>j < 1. computeHelioPos (fails_for Venus) (body (bodies ! j)) t = Inr (Vector3 1 3 2)"
  "computeHelioPos (fails_for Venus) (body (bodies ! 1)) t = Inl EphemerisFailure"
  by (simp_all add: computeHelioPos_def fails_for_def bodies_def)

lemma scene_wf_wheel_init: "scene_wf (wheel dy (init_state today t0))"
  using scene_wf_fire [OF scene_wf_init, of h today t0 "Wheel dy"] by simp

lemma sin_035_pos: "0 < sin (0.35 :: real)"
  by (rule sin_gt_zero_02) simp_all

section \<open>The simulation clock\<close>

text \<open>
  A frame whose timestamp lies before the previous one (a delta of \<open>-1\<close> second here) moves
  the clock backwards by the full delta: the script bounds the delta from above only.
\<close>

theorem advance_clamp_counterexample:
  "ut (simTime (reached (tick stub_ephemeris 0 (init_state (AstroTime 0) 1000)))) \<noteq>
   ut (simTime (init_state (AstroTime 0) 1000)) +
     (clamp ((0 - last_ms (init_state (AstroTime 0) 1000)) / 1000) 0 0.05 *
        timeScale (init_state (AstroTime 0) 1000)) / 86400"
  by (simp add: tick_simTime advance_def frame_dt_def init_state_def updateCamera_def clamp_def MakeTime_def Let_def)

text \<open>
  Claim C1, as the script has it. One frame of an unpaused clock sets the time to the old time
  plus \<open>min(d, 0.05) * scale\<close> seconds, converted to days by dividing by 86400, where
  \<open>d\<close> is the real-time delta in seconds; for a non-negative delta this is
  \<open>clamp(d, 0, 0.05) * scale\<close>. A paused clock keeps its time. This holds for the state a
  frame reaches whether or not the frame runs to its end.
\<close>

theorem advance_time:
  "(\<not> paused s \<longrightarrow>
      ut (simTime (reached (tick h now s))) =
        ut (simTime s) + (min 0.05 ((now - last_ms s) / 1000) * timeScale s) / 86400) \<and>
   (\<not> paused s \<and> last_ms s \<le> now \<longrightarrow>
      ut (simTime (reached (tick h now s))) =
        ut (simTime s) + (clamp ((now - last_ms s) / 1000) 0 0.05 * timeScale s) / 86400) \<and>
   (paused s \<longrightarrow> simTime (reached (tick h now s)) = simTime s)"
  by (simp add: tick_simTime advance_def frame_dt_def clamp_def MakeTime_def Let_def max_def min_def)

theorem advance_time_witness:
  "ut (simTime (reached (tick stub_ephemeris 16 (init_state (AstroTime 0) 0)))) = 96 / 864000 \<and>
   ut (simTime (reached (tick stub_ephemeris 0 (init_state (AstroTime 0) 1000)))) = - 600 / 86400 \<and>
   simTime (reached (tick stub_ephemeris 16 (btnPause (init_state (AstroTime 0) 0)))) = AstroTime 0"
  using advance_time [of "init_state (AstroTime 0) 0" stub_ephemeris 16]
    advance_time [of "init_state (AstroTime 0) 1000" stub_ephemeris 0]
    advance_time [of "btnPause (init_state (AstroTime 0) 0)" stub_ephemeris 16]
  by (simp add: init_state_def updateCamera_def btnPause_def clamp_def)

text \<open>
  With scale 600, a frame one real second after the last does not advance the clock by 600
  simulated seconds.
\<close>

theorem advance_one_second_counterexample:
  "ut (simTime (reached (tick stub_ephemeris 1000 (init_state (AstroTime 0) 0)))) \<noteq>
   ut (simTime (init_state (AstroTime 0) 0)) + 600 / 86400"
  by (simp add: tick_simTime advance_def frame_dt_def init_state_def updateCamera_def MakeTime_def Let_def)

text \<open>
  Claim C2, as the script has it. With scale 600 and the clock running, a frame one real second
  after the last advances the time by 30 simulated seconds (30 / 86400 days): the
  delta of 1.0 is cut to 0.05 before it is scaled.
\<close>

theorem advance_one_second:
  assumes "\<not> paused s" and "timeScale s = 600" and "(now - last_ms s) / 1000 = 1"
  shows "ut (simTime (reached (tick h now s))) = ut (simTime s) + 30 / 86400"
  using assms by (simp add: tick_simTime advance_def frame_dt_def MakeTime_def Let_def)

theorem advance_one_second_witness:
  "ut (simTime (reached (tick stub_ephemeris 1000 (init_state (AstroTime 0) 0)))) = 30 / 86400"
  using advance_one_second [of "init_state (AstroTime 0) 0" 1000 stub_ephemeris]
  by (simp add: init_state_def updateCamera_def)




section \<open>Trails\<close>

text \<open>
  After 221 pushes into an empty trail of capacity 220, the polyline starts with the newest
  position, not with the oldest of the last 220.
\<close>

theorem trail_polyline_push_order_counterexample:
  "polyline (push_all (ramp 221) (new_trail 220)) \<noteq> drop (221 - 220) (ramp 221)"
proof
  assume e: "polyline (push_all (ramp 221) (new_trail 220)) = drop (221 - 220) (ramp 221)"
  have inv: "trail_inv (new_trail 220)" by (simp add: trail_inv_new)
  have len: "maxPts (new_trail 220) \<le> length (ramp 221)"
    by (simp add: length_ramp new_trail_def)
  have lo: "length (ramp 221) - maxPts (new_trail 220) \<le> 220"
    by (simp add: length_ramp new_trail_def)
  have hi: "220 < length (ramp 221)"
    by (simp add: length_ramp)
  have "polyline (push_all (ramp 221) (new_trail 220)) ! ((count (new_trail 220) + 220) mod maxPts (new_trail 220))
     = ramp 221 ! 220"
    using inv len lo hi by (rule polyline_push_all_nth)
  then have "polyline (push_all (ramp 221) (new_trail 220)) ! 0 = Vector3 220 0 0"
    by (simp add: new_trail_def nth_ramp)
  moreover have "drop (221 - 220) (ramp 221) ! 0 = Vector3 1 0 0"
    by (simp add: length_ramp nth_ramp)
  ultimately show False using e by simp
qed

text \<open>
  Claim C4, as the script has it. After \<open>N > C\<close> pushes into a trail of capacity \<open>C\<close>,
  the polyline given to the renderer has length exactly \<open>C\<close> and is the storage in raw index
  order. It holds the last \<open>C\<close> pushed positions, the push numbered \<open>k\<close> sitting at index
  \<open>(count + k) mod C\<close>; read cyclically from index \<open>count mod C\<close> it is the last \<open>C\<close> pushes,
  oldest first. The polyline itself is in push order exactly when rotating it by
  \<open>count mod C\<close> leaves it as it is, which is the case whenever \<open>count mod C = 0\<close>.
\<close>

theorem trail_polyline_storage_order:
  assumes "trail_inv tr" and "maxPts tr < length ps"
  shows "length (polyline (push_all ps tr)) = maxPts tr \<and>
         polyline (push_all ps tr) = ring (push_all ps tr) \<and>
         rotate (count (push_all ps tr) mod maxPts tr) (polyline (push_all ps tr)) =
           drop (length ps - maxPts tr) ps \<and>
         (\<forall>k. length ps - maxPts tr \<le> k \<and> k < length ps \<longrightarrow>
            polyline (push_all ps tr) ! ((count tr + k) mod maxPts tr) = ps ! k) \<and>
         (polyline (push_all ps tr) = drop (length ps - maxPts tr) ps \<longleftrightarrow>
            rotate (count (push_all ps tr) mod maxPts tr) (polyline (push_all ps tr)) =
              polyline (push_all ps tr)) \<and>
         (count (push_all ps tr) mod maxPts tr = 0 \<longrightarrow>
            polyline (push_all ps tr) = drop (length ps - maxPts tr) ps)"
proof -
  have wf: "wf_trail tr" using assms by (simp add: trail_inv_def)
  have le: "maxPts tr \<le> length ps" using assms(2) by simp
  have p: "polyline (push_all ps tr) = ring (push_all ps tr)"
    using assms(1) le by (rule polyline_push_all)
  have c: "rotate (count (push_all ps tr) mod maxPts tr) (ring (push_all ps tr)) =
             drop (length ps - maxPts tr) ps"
    using chrono_full [OF wf le] by (simp add: chrono_def push_all_fields)
  have l: "length (ring (push_all ps tr)) = maxPts tr"
    by (simp add: length_ring push_all_fields)
  have z: "count (push_all ps tr) mod maxPts tr = 0 \<longrightarrow>
            ring (push_all ps tr) = drop (length ps - maxPts tr) ps"
    using c by auto
  have n: "\<forall>k. length ps - maxPts tr \<le> k \<and> k < length ps \<longrightarrow>
            polyline (push_all ps tr) ! ((count tr + k) mod maxPts tr) = ps ! k"
    using assms(1) le by (simp add: polyline_push_all_nth)
  from p c have r: "rotate (count (push_all ps tr) mod maxPts tr) (polyline (push_all ps tr)) =
           drop (length ps - maxPts tr) ps" by simp
  from p z have z': "count (push_all ps tr) mod maxPts tr = 0 \<longrightarrow>
            polyline (push_all ps tr) = drop (length ps - maxPts tr) ps" by simp
  from p l have l': "length (polyline (push_all ps tr)) = maxPts tr" by simp
  from r have i: "polyline (push_all ps tr) = drop (length ps - maxPts tr) ps \<longleftrightarrow>
            rotate (count (push_all ps tr) mod maxPts tr) (polyline (push_all ps tr)) =
              polyline (push_all ps tr)"
    by auto
  from l' p r n i z' show ?thesis by blast
qed

theorem trail_polyline_storage_order_witness:
  "polyline (push_all (ramp 221) (new_trail 220)) ! 0 = Vector3 220 0 0 \<and>
   polyline (push_all (ramp 221) (new_trail 220)) ! 1 = Vector3 1 0 0 \<and>
   length (polyline (push_all (ramp 221) (new_trail 220))) = 220"
proof -
  have inv: "trail_inv (new_trail 220)" by (simp add: trail_inv_new)
  have len: "maxPts (new_trail 220) < length (ramp 221)"
    by (simp add: length_ramp new_trail_def)
  note t = trail_polyline_storage_order [OF inv len]
  have m: "maxPts (new_trail 220) = 220" "count (new_trail 220) = 0"
    by (simp_all add: new_trail_def)
  from t have n: "\<forall>k. length (ramp 221) - maxPts (new_trail 220) \<le> k \<and> k < length (ramp 221) \<longrightarrow>
     polyline (push_all (ramp 221) (new_trail 220)) ! ((count (new_trail 220) + k) mod maxPts (new_trail 220)) = ramp 221 ! k"
    by blast
  have a: "polyline (push_all (ramp 221) (new_trail 220)) ! ((0 + 220) mod 220) = ramp 221 ! 220"
    using n [rule_format, of 220] by (simp add: m length_ramp)
  have b: "polyline (push_all (ramp 221) (new_trail 220)) ! ((0 + 1) mod 220) = ramp 221 ! 1"
    using n [rule_format, of 1] by (simp add: m length_ramp)
  from t have "length (polyline (push_all (ramp 221) (new_trail 220))) = maxPts (new_trail 220)"
    by blast
  then have c: "length (polyline (push_all (ramp 221) (new_trail 220))) = 220"
    by (simp only: m)
  show ?thesis using a b c by (simp add: nth_ramp)
qed

text \<open>
  Claim C5. A push writes the position at storage index \<open>count mod C\<close>, leaves every other
  vertex alone and increments \<open>count\<close>. In every state the script can reach, every trail has
  the draw range \<open>[0, min(count, C))\<close>. \<^verbatim>\<open>resetTrails\<close> sets \<open>count\<close> to 0 and empties the
  draw range, and a reset followed by one push shows exactly the pushed position; this also holds
  for the \<^verbatim>\<open>Now\<close> button followed by one frame in which the ephemeris answers.
\<close>

theorem trail_buffer_ops:
  "(wf_trail tr \<longrightarrow>
      vertex (arr (trail_push p tr)) (count tr mod maxPts tr) = p \<and>
      (\<forall>j. j \<noteq> count tr mod maxPts tr \<longrightarrow> vertex (arr (trail_push p tr)) j = vertex (arr tr) j) \<and>
      count (trail_push p tr) = count tr + 1 \<and>
      polyline (trail_push p (trail_reset tr)) = [p]) \<and>
   (\<forall>k t. trails (run h (init_state start t0) evs) k = Some t \<longrightarrow>
      drawStart t = 0 \<and> drawCount t = min (count t) (maxPts t)) \<and>
   (\<forall>k t. trails (resetTrails s) k = Some t \<longrightarrow>
      count t = 0 \<and> drawStart t = 0 \<and> drawCount t = 0 \<and> polyline t = []) \<and>
   (scene_wf s \<and> showTrails s \<and>
    (\<forall>q \<in> set bodies. computeHelioPos h (body q) (simTime (advance now (btnNow today s))) = Inr (au q)) \<longrightarrow>
      (\<forall>q \<in> set bodies. map_option polyline (trails (reached (tick h now (btnNow today s))) (key q)) =
          Some [multiplyScalar (au q) AU_TO_UNITS]))"
proof -
  have a: "wf_trail tr \<longrightarrow>
      vertex (arr (trail_push p tr)) (count tr mod maxPts tr) = p \<and>
      (\<forall>j. j \<noteq> count tr mod maxPts tr \<longrightarrow> vertex (arr (trail_push p tr)) j = vertex (arr tr) j) \<and>
      count (trail_push p tr) = count tr + 1 \<and>
      polyline (trail_push p (trail_reset tr)) = [p]"
    by (simp add: trail_push_vertex trail_push_fields polyline_reset_push)
  have b: "\<forall>k t. trails (run h (init_state start t0) evs) k = Some t \<longrightarrow>
      drawStart t = 0 \<and> drawCount t = min (count t) (maxPts t)"
  proof (intro allI impI)
    fix k t assume t: "trails (run h (init_state start t0) evs) k = Some t"
    have "scene_wf (run h (init_state start t0) evs)"
      by (simp add: scene_wf_run scene_wf_init)
    then have "trail_inv t" using t by (auto simp add: scene_wf_def trails_ok_def)
    then show "drawStart t = 0 \<and> drawCount t = min (count t) (maxPts t)"
      by (simp add: trail_inv_def min.commute)
  qed
  have c: "\<forall>k t. trails (resetTrails s) k = Some t \<longrightarrow>
      count t = 0 \<and> drawStart t = 0 \<and> drawCount t = 0 \<and> polyline t = []"
    by (auto simp add: resetTrails_def trail_reset_def polyline_def)
  have d: "scene_wf s \<and> showTrails s \<and>
    (\<forall>q \<in> set bodies. computeHelioPos h (body q) (simTime (advance now (btnNow today s))) = Inr (au q)) \<longrightarrow>
      (\<forall>q \<in> set bodies. map_option polyline (trails (reached (tick h now (btnNow today s))) (key q)) =
          Some [multiplyScalar (au q) AU_TO_UNITS])"
  proof (intro impI ballI)
    fix q
    assume hyp: "scene_wf s \<and> showTrails s \<and>
      (\<forall>q \<in> set bodies. computeHelioPos h (body q) (simTime (advance now (btnNow today s))) = Inr (au q))"
      and q: "q \<in> set bodies"
    let ?s = "btnNow today s"
    have wf: "scene_wf ?s" using hyp scene_wf_fire [of s h "BtnNow today"] by simp
    have sh: "showTrails ?s" using hyp by (simp add: btnNow_def resetTrails_def)
    obtain tr0 where tr0: "trails s (key q) = Some tr0"
      using hyp q by (auto simp add: scene_wf_def)
    then have w0: "wf_trail tr0" using hyp by (auto simp add: scene_wf_def trails_ok_def trail_inv_def)
    have tq: "trails ?s (key q) = Some (trail_reset tr0)"
      using tr0 by (simp add: btnNow_def resetTrails_def)
    have "trails (reached (tick h now ?s)) (key q) =
            map_option (trail_push (multiplyScalar (au q) AU_TO_UNITS)) (trails ?s (key q))"
      using tick_ok [OF wf, of h now au] hyp sh q by blast
    then show "map_option polyline (trails (reached (tick h now ?s)) (key q)) =
          Some [multiplyScalar (au q) AU_TO_UNITS]"
      using tq w0 by (simp add: polyline_reset_push)
  qed
  from a b c d show ?thesis by blast
qed

theorem trail_buffer_ops_witness:
  "polyline (trail_push (Vector3 1 2 3) (trail_reset (new_trail 220))) = [Vector3 1 2 3] \<and>
   count (trail_push (Vector3 1 2 3) (new_trail 220)) = 1 \<and>
   map_option polyline
     (trails (reached (tick stub_ephemeris 16 (btnNow (AstroTime 5) (init_state (AstroTime 0) 0)))) ''Mercury'') =
     Some [Vector3 220 660 440]"
proof -
  have w: "wf_trail (new_trail 220)" by (simp add: wf_trail_def new_trail_def)
  note t = trail_buffer_ops [where tr = "new_trail 220" and p = "Vector3 1 2 3" and h = stub_ephemeris
      and start = "AstroTime 0" and ?t0.0 = 0 and evs = "[]" and s = "init_state (AstroTime 0) 0"
      and now = 16 and today = "AstroTime 5" and au = "\<lambda>q. Vector3 1 3 2"]
  have a: "polyline (trail_push (Vector3 1 2 3) (trail_reset (new_trail 220))) = [Vector3 1 2 3]"
    using t w by blast
  have b: "count (trail_push (Vector3 1 2 3) (new_trail 220)) = count (new_trail 220) + 1"
    using t w by blast
  have "\<forall>q \<in> set bodies. map_option polyline
          (trails (reached (tick stub_ephemeris 16 (btnNow (AstroTime 5) (init_state (AstroTime 0) 0)))) (key q)) =
          Some [multiplyScalar (Vector3 1 3 2) AU_TO_UNITS]"
    using t scene_wf_init [of "AstroTime 0" 0]
    by (simp add: stub_computeHelioPos init_state_def updateCamera_def)
  then have c: "map_option polyline
     (trails (reached (tick stub_ephemeris 16 (btnNow (AstroTime 5) (init_state (AstroTime 0) 0)))) ''Mercury'') =
     Some [multiplyScalar (Vector3 1 3 2) AU_TO_UNITS]"
    using mercury_in_bodies by force
  show ?thesis using a b c by (simp add: new_trail_def multiplyScalar_def AU_TO_UNITS_def)
qed

text \<open>
  With trails hidden, a frame pushes nothing: the counter of Mercury's trail is still 0 after it.
\<close>

theorem hidden_trails_counterexample:
  "map_option count
     (trails (reached (tick stub_ephemeris 16 (btnTrails (init_state (AstroTime 0) 0)))) ''Mercury'') = Some 0"
proof -
  have "\<not> showTrails (btnTrails (init_state (AstroTime 0) 0))"
    by (simp add: btnTrails_def init_state_def updateCamera_def Let_def)
  then have "trails (reached (tick stub_ephemeris 16 (btnTrails (init_state (AstroTime 0) 0)))) =
      trails (btnTrails (init_state (AstroTime 0) 0))"
    by (rule tick_trails_hidden)
  then show ?thesis
    by (simp add: btnTrails_def Let_def init_trails bodies_def new_trail_def)
qed

text \<open>
  Claim C6, as the script has it. Toggling trail visibility changes no stored position, counter
  or draw range; it only flips \<^verbatim>\<open>showTrails\<close> and the lines' visibility. While trails are
  hidden, frames leave every trail as it is, so nothing is recorded during the hidden period and
  re-enabling shows the trail as it was when it was hidden.
\<close>

theorem hidden_trails_do_not_record:
  "(\<forall>k tr. trails s k = Some tr \<longrightarrow>
      (\<exists>tr'. trails (btnTrails s) k = Some tr' \<and> arr tr' = arr tr \<and> count tr' = count tr \<and>
             polyline tr' = polyline tr \<and> visible tr' = (\<not> showTrails s))) \<and>
   showTrails (btnTrails s) = (\<not> showTrails s) \<and>
   (\<not> showTrails s \<longrightarrow> trails (reached (tick h now s)) = trails s) \<and>
   (\<not> showTrails s \<longrightarrow> trails (run h s (map Frame nows)) = trails s)"
proof -
  have a: "\<forall>k tr. trails s k = Some tr \<longrightarrow>
      (\<exists>tr'. trails (btnTrails s) k = Some tr' \<and> arr tr' = arr tr \<and> count tr' = count tr \<and>
             polyline tr' = polyline tr \<and> visible tr' = (\<not> showTrails s))"
    by (simp add: btnTrails_def Let_def polyline_def)
  have b: "showTrails (btnTrails s) = (\<not> showTrails s)"
    by (simp add: btnTrails_def Let_def)
  from a b show ?thesis by (simp add: tick_trails_hidden hidden_frames)
qed

theorem hidden_trails_do_not_record_witness:
  "trails (run stub_ephemeris (btnTrails (init_state (AstroTime 0) 0)) (map Frame [16, 32, 48])) =
     trails (btnTrails (init_state (AstroTime 0) 0)) \<and>
   showTrails (btnTrails (btnTrails (init_state (AstroTime 0) 0)))"
  using hidden_trails_do_not_record [where s = "btnTrails (init_state (AstroTime 0) 0)"
      and h = stub_ephemeris and now = 16 and nows = "[16, 32, 48]"]
  by (simp add: btnTrails_def init_state_def updateCamera_def Let_def)

text \<open>
  Claim C10. While the clock is paused with trails shown, and the ephemeris answers for every
  body at the current time, each frame leaves the simulation time unchanged and pushes the
  body's position at that time into its trail, incrementing \<open>count\<close>. After \<open>n\<close> frames the
  trail is the old one with \<open>n\<close> copies of that position pushed, and once \<open>n\<close> reaches the
  capacity \<open>C\<close> the polyline is \<open>C\<close> copies of it, whatever was recorded before.
\<close>

theorem paused_frames_fill_trail:
  assumes "paused s" and "showTrails s" and "frameRequested s" and "scene_wf s"
    and "\<forall>p \<in> set bodies. computeHelioPos h (body p) (simTime s) = Inr (au p)"
    and "q \<in> set bodies" and "trails s (key q) = Some tr"
  shows "simTime (run h s (map Frame nows)) = simTime s \<and>
         (\<exists>tr'. trails (run h s (map Frame nows)) (key q) = Some tr' \<and>
            tr' = push_all (replicate (length nows) (multiplyScalar (au q) AU_TO_UNITS)) tr \<and>
            count tr' = count tr + length nows \<and>
            (maxPts tr \<le> length nows \<longrightarrow>
               polyline tr' = replicate (maxPts tr) (multiplyScalar (au q) AU_TO_UNITS)))"
proof -
  have inv: "trail_inv tr" using assms(4,7) by (auto simp add: scene_wf_def trails_ok_def)
  show ?thesis
    using paused_frames [OF assms, of nows] inv
    by (simp add: push_all_fields polyline_all_same)
qed

theorem paused_frames_fill_trail_witness:
  "simTime (run stub_ephemeris (btnPause (init_state (AstroTime 0) 0)) (map Frame (map real [1 ..< 221]))) = AstroTime 0 \<and>
   map_option polyline
     (trails (run stub_ephemeris (btnPause (init_state (AstroTime 0) 0)) (map Frame (map real [1 ..< 221]))) ''Mercury'') =
     Some (replicate 220 (Vector3 220 660 440))"
proof -
  let ?s = "btnPause (init_state (AstroTime 0) 0)"
  have a: "paused ?s" "showTrails ?s" "frameRequested ?s"
    by (simp_all add: btnPause_def init_state_def updateCamera_def)
  have w: "scene_wf ?s" using scene_wf_fire [OF scene_wf_init, of stub_ephemeris "AstroTime 0" 0 BtnPause] by simp
  have e: "\<forall>p \<in> set bodies. computeHelioPos stub_ephemeris (body p) (simTime ?s) = Inr (Vector3 1 3 2)"
    by (simp add: stub_computeHelioPos)
  have t: "trails ?s (key \<lparr>key = ''Mercury'', body = Mercury, color = 0xbab3a6, radius = 3.2, desc = ''Small, fast, cratered.''\<rparr>) = Some (new_trail 220)"
    by (simp add: btnPause_def init_trails bodies_def)
  note r = paused_frames_fill_trail [OF a w e mercury_in_bodies t, of "map real [1 ..< 221]"]
  have st: "simTime ?s = AstroTime 0" by (simp add: btnPause_def init_state_def updateCamera_def)
  have m: "maxPts (new_trail 220) = 220" by (simp add: new_trail_def)
  from r show ?thesis
    by (auto simp add: st m multiplyScalar_def AU_TO_UNITS_def)
qed

section \<open>The orbit camera\<close>

text \<open>
  Claim C8. The camera starts with pitch 0.35 and distance 900, and after every sequence of
  events (orbit drags, pan drags, wheel steps, and all the others) the pitch lies in
  \<open>[-1.25, 1.25]\<close> and the distance in \<open>[50, 12000]\<close>. An orbit drag whose \<open>dy\<close> is
  large enough to leave the interval sets the pitch to exactly \<open>-1.25\<close> (downward drag) or
  \<open>1.25\<close> (upward drag).
\<close>

theorem camera_bounds:
  "pitch (init_state today t0) = 0.35 \<and> distance (init_state today t0) = 900 \<and>
   cam_inv (run h (init_state today t0) evs) \<and>
   (isDragging s \<and> \<not> isRightDragging s \<and> (pitch s + 1.25) / 0.005 \<le> cy - lastY s \<longrightarrow>
      pitch (pointermove cx cy s) = - 1.25) \<and>
   (isDragging s \<and> \<not> isRightDragging s \<and> cy - lastY s \<le> (pitch s - 1.25) / 0.005 \<longrightarrow>
      pitch (pointermove cx cy s) = 1.25)"
proof -
  have "cam_inv (run h (init_state today t0) evs)"
    by (simp add: cam_inv_run cam_inv_init)
  moreover have "pitch (init_state today t0) = 0.35 \<and> distance (init_state today t0) = 900"
    by (simp add: init_state_def updateCamera_def)
  moreover have "isDragging s \<and> \<not> isRightDragging s \<and> (pitch s + 1.25) / 0.005 \<le> cy - lastY s \<longrightarrow>
      pitch (pointermove cx cy s) = - 1.25"
    by (auto simp add: pointermove_def Let_def field_simps)
  moreover have "isDragging s \<and> \<not> isRightDragging s \<and> cy - lastY s \<le> (pitch s - 1.25) / 0.005 \<longrightarrow>
      pitch (pointermove cx cy s) = 1.25"
    by (auto simp add: pointermove_def Let_def field_simps)
  ultimately show ?thesis by blast
qed

theorem camera_bounds_witness:
  "cam_inv (run stub_ephemeris (init_state (AstroTime 0) 0)
      [PointerDown 0 10 10, PointerMove 10 100000, PointerUp, PointerDown 2 0 0, PointerMove 7 9,
       Wheel 120, Frame 16]) \<and>
   pitch (pointermove 10 100000 (pointerdown 0 10 10 (init_state (AstroTime 0) 0))) = - 1.25 \<and>
   pitch (pointermove 10 (- 100000) (pointerdown 0 10 10 (init_state (AstroTime 0) 0))) = 1.25"
  using camera_bounds [of "AstroTime 0" 0 stub_ephemeris
      "[PointerDown 0 10 10, PointerMove 10 100000, PointerUp, PointerDown 2 0 0, PointerMove 7 9,
       Wheel 120, Frame 16]" "pointerdown 0 10 10 (init_state (AstroTime 0) 0)" 100000 10]
    camera_bounds [of "AstroTime 0" 0 stub_ephemeris
      "[]" "pointerdown 0 10 10 (init_state (AstroTime 0) 0)" "- 100000" 10]
  by (simp add: pointerdown_def init_state_def updateCamera_def)

text \<open>
  A wheel step of sign \<open>+1\<close> moves the distance up, not down: from the start distance 900,
  one step gives 972 and 72 steps give 12000, while 66 steps of sign \<open>-1\<close> give 50.
\<close>

theorem zoom_direction_counterexample:
  "distance (init_state (AstroTime 0) 0) < distance (wheel 1 (init_state (AstroTime 0) 0)) \<and>
   distance ((wheel 1 ^^ 72) (init_state (AstroTime 0) 0)) = 12000 \<and>
   distance ((wheel (- 1) ^^ 66) (init_state (AstroTime 0) 0)) = 50"
proof -
  have d: "distance (init_state (AstroTime 0) 0) = 900"
    by (simp add: init_state_def updateCamera_def)
  have "distance (wheel 1 (init_state (AstroTime 0) 0)) = 972"
    by (simp add: wheel_distance d)
  moreover have "distance ((wheel 1 ^^ 72) (init_state (AstroTime 0) 0)) = 12000"
    by (rule wheel_out_limit) (simp_all add: d)
  moreover have "distance ((wheel (- 1) ^^ 66) (init_state (AstroTime 0) 0)) = 50"
    by (rule wheel_in_limit) (simp_all add: d)
  ultimately show ?thesis using d by simp
qed

text \<open>
  Claim C9, as the script has it. A wheel step multiplies the distance by
  \<open>1 + sign * 0.08\<close> and clamps it to \<open>[50, 12000]\<close>. From a distance in that interval,
  repeated steps of sign \<open>+1\<close> never decrease the distance, never exceed 12000 and stay at
  12000 from the 72nd step on; repeated steps of sign \<open>-1\<close> never increase it, never go
  below 50 and stay at 50 from the 66th step on.
\<close>

theorem zoom_steps:
  "distance (wheel dy s) = clamp (distance s * (1 + sgn dy * 0.08)) 50 12000 \<and>
   50 \<le> distance (wheel dy s) \<and> distance (wheel dy s) \<le> 12000 \<and>
   (0 < dy \<and> 50 \<le> distance s \<and> distance s \<le> 12000 \<longrightarrow>
      distance ((wheel dy ^^ n) s) \<le> distance ((wheel dy ^^ Suc n) s) \<and>
      distance ((wheel dy ^^ n) s) \<le> 12000 \<and>
      (72 \<le> n \<longrightarrow> distance ((wheel dy ^^ n) s) = 12000)) \<and>
   (dy < 0 \<and> 50 \<le> distance s \<and> distance s \<le> 12000 \<longrightarrow>
      distance ((wheel dy ^^ Suc n) s) \<le> distance ((wheel dy ^^ n) s) \<and>
      50 \<le> distance ((wheel dy ^^ n) s) \<and>
      (66 \<le> n \<longrightarrow> distance ((wheel dy ^^ n) s) = 50))"
proof -
  have a: "distance (wheel dy s) = clamp (distance s * (1 + sgn dy * 0.08)) 50 12000"
    by (simp add: wheel_distance clamp_def)
  have b: "50 \<le> distance (wheel dy s) \<and> distance (wheel dy s) \<le> 12000"
    by (simp add: wheel_distance)
  have c: "0 < dy \<and> 50 \<le> distance s \<and> distance s \<le> 12000 \<longrightarrow>
      distance ((wheel dy ^^ n) s) \<le> distance ((wheel dy ^^ Suc n) s) \<and>
      distance ((wheel dy ^^ n) s) \<le> 12000 \<and>
      (72 \<le> n \<longrightarrow> distance ((wheel dy ^^ n) s) = 12000)"
  proof (intro impI)
    assume h: "0 < dy \<and> 50 \<le> distance s \<and> distance s \<le> 12000"
    then have f: "\<And>m. distance ((wheel dy ^^ m) s) = min 12000 (distance s * (27 / 25) ^ m)"
      by (simp add: funpow_wheel_out)
    have "(27 / 25 :: real) ^ n \<le> (27 / 25) ^ Suc n"
      by (intro power_increasing) simp_all
    then have "distance s * (27 / 25) ^ n \<le> distance s * (27 / 25) ^ Suc n"
      using h by (intro mult_left_mono) simp_all
    then have "min 12000 (distance s * (27 / 25) ^ n) \<le> min 12000 (distance s * (27 / 25) ^ Suc n)"
      by (simp add: min_def)
    then have "distance ((wheel dy ^^ n) s) \<le> distance ((wheel dy ^^ Suc n) s)"
      by (simp only: f)
    moreover have "distance ((wheel dy ^^ n) s) \<le> 12000"
      by (simp add: f)
    moreover have "72 \<le> n \<longrightarrow> distance ((wheel dy ^^ n) s) = 12000"
      using h by (simp add: wheel_out_limit)
    ultimately show "distance ((wheel dy ^^ n) s) \<le> distance ((wheel dy ^^ Suc n) s) \<and>
      distance ((wheel dy ^^ n) s) \<le> 12000 \<and>
      (72 \<le> n \<longrightarrow> distance ((wheel dy ^^ n) s) = 12000)" by blast
  qed
  have d: "dy < 0 \<and> 50 \<le> distance s \<and> distance s \<le> 12000 \<longrightarrow>
      distance ((wheel dy ^^ Suc n) s) \<le> distance ((wheel dy ^^ n) s) \<and>
      50 \<le> distance ((wheel dy ^^ n) s) \<and>
      (66 \<le> n \<longrightarrow> distance ((wheel dy ^^ n) s) = 50)"
  proof (intro impI)
    assume h: "dy < 0 \<and> 50 \<le> distance s \<and> distance s \<le> 12000"
    then have f: "\<And>m. distance ((wheel dy ^^ m) s) = max 50 (distance s * (23 / 25) ^ m)"
      by (simp add: funpow_wheel_in)
    have "(23 / 25 :: real) ^ Suc n \<le> (23 / 25) ^ n"
      by (intro power_decreasing) simp_all
    then have "distance s * (23 / 25) ^ Suc n \<le> distance s * (23 / 25) ^ n"
      using h by (intro mult_left_mono) simp_all
    then have "max 50 (distance s * (23 / 25) ^ Suc n) \<le> max 50 (distance s * (23 / 25) ^ n)"
      by (simp add: max_def)
    then have "distance ((wheel dy ^^ Suc n) s) \<le> distance ((wheel dy ^^ n) s)"
      by (simp only: f)
    moreover have "50 \<le> distance ((wheel dy ^^ n) s)"
      by (simp add: f)
    moreover have "66 \<le> n \<longrightarrow> distance ((wheel dy ^^ n) s) = 50"
      using h by (simp add: wheel_in_limit)
    ultimately show "distance ((wheel dy ^^ Suc n) s) \<le> distance ((wheel dy ^^ n) s) \<and>
      50 \<le> distance ((wheel dy ^^ n) s) \<and>
      (66 \<le> n \<longrightarrow> distance ((wheel dy ^^ n) s) = 50)" by blast
  qed
  from a b c d show ?thesis by blast
qed

theorem zoom_steps_witness:
  "distance (wheel 1 (init_state (AstroTime 0) 0)) = 972 \<and>
   distance ((wheel 1 ^^ 72) (init_state (AstroTime 0) 0)) = 12000 \<and>
   distance ((wheel (- 1) ^^ 66) (init_state (AstroTime 0) 0)) = 50"
proof -
  have d: "distance (init_state (AstroTime 0) 0) = 900"
    by (simp add: init_state_def updateCamera_def)
  have "distance (wheel 1 (init_state (AstroTime 0) 0)) = 972"
    using zoom_steps [of 1 "init_state (AstroTime 0) 0" 0] by (simp add: d clamp_def)
  moreover have "distance ((wheel 1 ^^ 72) (init_state (AstroTime 0) 0)) = 12000"
    using zoom_steps [of 1 "init_state (AstroTime 0) 0" 72] d by simp
  moreover have "distance ((wheel (- 1) ^^ 66) (init_state (AstroTime 0) 0)) = 50"
    using zoom_steps [of "- 1" "init_state (AstroTime 0) 0" 66] d by simp
  ultimately show ?thesis by blast
qed

section \<open>A frame in which the ephemeris fails\<close>

text \<open>
  The ephemeris throws for Venus, the second body. The frame stops there: Earth's mesh stays
  at the origin, the camera keeps the pose of the previous frame although the distance has
  changed since, nothing is rendered and no further frame is requested.
\<close>

theorem failed_body_aborts_frame_counterexample:
  "threw (tick (fails_for Venus) 16 (wheel 120 (init_state (AstroTime 0) 0))) \<and>
   planetMeshes (reached (tick (fails_for Venus) 16 (wheel 120 (init_state (AstroTime 0) 0)))) ! 2 = Vector3 0 0 0 \<and>
   camera_position (reached (tick (fails_for Venus) 16 (wheel 120 (init_state (AstroTime 0) 0)))) \<noteq>
     camera_position (updateCamera (wheel 120 (init_state (AstroTime 0) 0))) \<and>
   rendered (reached (tick (fails_for Venus) 16 (wheel 120 (init_state (AstroTime 0) 0)))) = 0 \<and>
   \<not> frameRequested (reached (tick (fails_for Venus) 16 (wheel 120 (init_state (AstroTime 0) 0))))"
proof -
  let ?s = "wheel 120 (init_state (AstroTime 0) 0)"
  let ?r = "reached (tick (fails_for Venus) 16 ?s)"
  have wf: "scene_wf ?s" by (rule scene_wf_wheel_init)
  have k: "1 < length bodies" by (simp add: length_bodies)
  have ok: "\<forall>j < 1. computeHelioPos (fails_for Venus) (body (bodies ! j)) (simTime (advance 16 ?s)) =
      Inr ((\<lambda>p. Vector3 1 3 2) (bodies ! j))"
    using fails_for_Venus(1) by simp
  have bad: "computeHelioPos (fails_for Venus) (body (bodies ! 1)) (simTime (advance 16 ?s)) = Inl EphemerisFailure"
    by (rule fails_for_Venus(2))
  have "tick (fails_for Venus) 16 ?s = Threw EphemerisFailure ?r"
    using wf k ok bad by (rule tick_fails_at(1))
  then have th: "threw (tick (fails_for Venus) 16 ?s)"
    by (metis threw.simps(2))
  have "\<forall>j. 1 \<le> j \<longrightarrow> planetMeshes ?r ! j = planetMeshes ?s ! j"
    using wf k ok bad by (rule tick_fails_at(4))
  then have "planetMeshes ?r ! 2 = planetMeshes ?s ! 2" by simp
  then have m: "planetMeshes ?r ! 2 = Vector3 0 0 0"
    by (simp add: wheel_def init_state_def updateCamera_def Let_def bodies_def)
  note t = tick_threw [OF th]
  have "vy (camera_position ?s) = 900 * sin 0.35"
    by (simp add: wheel_def init_state_def updateCamera_def Let_def)
  moreover have "vy (camera_position (updateCamera ?s)) = 972 * sin 0.35"
    by (simp add: wheel_def init_state_def updateCamera_def Let_def)
  ultimately have "vy (camera_position ?s) \<noteq> vy (camera_position (updateCamera ?s))"
    using sin_035_pos by simp
  then have c: "camera_position ?r \<noteq> camera_position (updateCamera ?s)"
    using t by auto
  have r: "rendered ?r = 0"
    using t by (simp add: wheel_def init_state_def updateCamera_def Let_def)
  from th m c r t show ?thesis by blast
qed

text \<open>
  Claim C3, as the script has it. If the ephemeris fails for the body at index \<open>k\<close> of the
  catalog, having answered for the bodies before it, the frame ends with that exception. The
  bodies before index \<open>k\<close> have their mesh moved and, if trails are shown, their position
  pushed; the failing body and every later body keep their mesh position and trail; the camera
  pose and the info panel are not updated, nothing is rendered and no further frame is
  requested.
\<close>

theorem failed_body_aborts_frame:
  assumes "scene_wf s" and "k < length bodies"
    and "\<forall>j < k. computeHelioPos h (body (bodies ! j)) (simTime (advance now s)) = Inr (au (bodies ! j))"
    and "computeHelioPos h (body (bodies ! k)) (simTime (advance now s)) = Inl e"
  shows "tick h now s = Threw e (reached (tick h now s)) \<and>
    (\<forall>j < k. planetMeshes (reached (tick h now s)) ! j = multiplyScalar (au (bodies ! j)) AU_TO_UNITS) \<and>
    (showTrails s \<longrightarrow> (\<forall>j < k. trails (reached (tick h now s)) (key (bodies ! j)) =
        map_option (trail_push (multiplyScalar (au (bodies ! j)) AU_TO_UNITS)) (trails s (key (bodies ! j))))) \<and>
    (\<forall>j. k \<le> j \<and> j < length bodies \<longrightarrow>
        planetMeshes (reached (tick h now s)) ! j = planetMeshes s ! j \<and>
        trails (reached (tick h now s)) (key (bodies ! j)) = trails s (key (bodies ! j))) \<and>
    camera_position (reached (tick h now s)) = camera_position s \<and>
    camera_lookAt (reached (tick h now s)) = camera_lookAt s \<and>
    info (reached (tick h now s)) = info s \<and>
    rendered (reached (tick h now s)) = rendered s \<and>
    \<not> frameRequested (reached (tick h now s))"
proof -
  note f = tick_fails_at [OF assms]
  have "threw (tick h now s)" using f(1) by (metis threw.simps(2))
  then have t: "\<not> frameRequested (reached (tick h now s)) \<and> rendered (reached (tick h now s)) = rendered s \<and>
     camera_position (reached (tick h now s)) = camera_position s \<and>
     camera_lookAt (reached (tick h now s)) = camera_lookAt s \<and>
     info (reached (tick h now s)) = info s"
    by (rule tick_threw)
  have o: "\<forall>j. k \<le> j \<and> j < length bodies \<longrightarrow>
        planetMeshes (reached (tick h now s)) ! j = planetMeshes s ! j \<and>
        trails (reached (tick h now s)) (key (bodies ! j)) = trails s (key (bodies ! j))"
    using f(4) f(5) by blast
  from f(1) f(2) f(3) o t show ?thesis by blast
qed

theorem failed_body_aborts_frame_witness:
  "tick (fails_for Venus) 16 (init_state (AstroTime 0) 0) =
     Threw EphemerisFailure (reached (tick (fails_for Venus) 16 (init_state (AstroTime 0) 0))) \<and>
   planetMeshes (reached (tick (fails_for Venus) 16 (init_state (AstroTime 0) 0))) ! 0 = Vector3 220 660 440 \<and>
   planetMeshes (reached (tick (fails_for Venus) 16 (init_state (AstroTime 0) 0))) ! 1 = Vector3 0 0 0 \<and>
   planetMeshes (reached (tick (fails_for Venus) 16 (init_state (AstroTime 0) 0))) ! 2 = Vector3 0 0 0 \<and>
   rendered (reached (tick (fails_for Venus) 16 (init_state (AstroTime 0) 0))) = 0"
proof -
  let ?s = "init_state (AstroTime 0) 0"
  have wf: "scene_wf ?s" by (rule scene_wf_init)
  have k: "1 < length bodies" by (simp add: length_bodies)
  have ok: "\<forall>j < 1. computeHelioPos (fails_for Venus) (body (bodies ! j)) (simTime (advance 16 ?s)) =
      Inr ((\<lambda>p. Vector3 1 3 2) (bodies ! j))"
    using fails_for_Venus(1) by simp
  have bad: "computeHelioPos (fails_for Venus) (body (bodies ! 1)) (simTime (advance 16 ?s)) = Inl EphemerisFailure"
    by (rule fails_for_Venus(2))
  note r = failed_body_aborts_frame [OF wf k ok bad]
  have i: "planetMeshes ?s ! 1 = Vector3 0 0 0" "planetMeshes ?s ! 2 = Vector3 0 0 0" "rendered ?s = 0"
    by (simp_all add: init_state_def updateCamera_def bodies_def)
  have l: "(1::nat) \<le> 1 \<and> 1 < length bodies" "(1::nat) \<le> 2 \<and> 2 < length bodies" "(0::nat) < 1"
    by (simp_all add: length_bodies)
  from r have a: "tick (fails_for Venus) 16 ?s = Threw EphemerisFailure (reached (tick (fails_for Venus) 16 ?s))"
    by blast
  from r l(3) have b: "planetMeshes (reached (tick (fails_for Venus) 16 ?s)) ! 0 = multiplyScalar (Vector3 1 3 2) AU_TO_UNITS"
    by blast
  from r l(1) have c: "planetMeshes (reached (tick (fails_for Venus) 16 ?s)) ! 1 = planetMeshes ?s ! 1"
    by blast
  from r l(2) have d: "planetMeshes (reached (tick (fails_for Venus) 16 ?s)) ! 2 = planetMeshes ?s ! 2"
    by blast
  from r have e: "rendered (reached (tick (fails_for Venus) 16 ?s)) = rendered ?s"
    by blast
  show ?thesis using a b c d e i by (simp add: multiplyScalar_def AU_TO_UNITS_def)
qed

end
